theory Spec2Isabelle
  imports Complex_Main "HOL-Library.Word"
begin

section \<open>Go library functions used by the parser\<close>

text \<open>
  A Go \<open>string\<close> is a sequence of bytes, modelled as \<open>string\<close> (a list of 8-bit
  characters). Go's \<open>int\<close> is a 64-bit two's complement integer on the platforms the
  program is built for: \<open>64 word\<close>, read with \<open>sint\<close>, compared with \<open><s\<close>,
  and \<open>+\<close> wraps around as Go's does. An \<open>error\<close> is modelled by its message.
\<close>

type_synonym goint = "64 word"
type_synonym error = string

subsection \<open>strconv.Atoi\<close>

definition isDigit :: "char \<Rightarrow> bool" where
  "isDigit c = (48 \<le> (of_char c :: nat) \<and> (of_char c :: nat) \<le> 57)"

definition digitVal :: "char \<Rightarrow> int" where
  "digitVal c = int (of_char c) - 48"

fun digitsVal :: "int \<Rightarrow> string \<Rightarrow> int" where
  "digitsVal n [] = n"
| "digitsVal n (c # cs) = digitsVal (n * 10 + digitVal c) cs"

text \<open>
  \<open>strconv.Atoi\<close>: an optional sign, then one or more decimal digits, and the value
  must fit an \<open>int\<close>; anything else is an error (\<open>None\<close>: no caller reads the
  error's text).
\<close>

definition Atoi :: "string \<Rightarrow> goint option" where
  "Atoi s =
     (let neg = (s \<noteq> [] \<and> hd s = CHR ''-'');
          body = (if s \<noteq> [] \<and> (hd s = CHR ''-'' \<or> hd s = CHR ''+'') then tl s else s)
      in if body = [] \<or> \<not> list_all isDigit body then None
         else (let n = (if neg then - digitsVal 0 body else digitsVal 0 body)
               in if - (2 ^ 63) \<le> n \<and> n < 2 ^ 63 then Some (word_of_int n) else None))"

subsection \<open>strings.Split, strings.SplitN, strings.TrimSpace, strings.Contains\<close>

text \<open>\<open>strings.Split(s, sep)\<close> for a one-byte separator: cut at every separator;
  never empty, \<open>[s]\<close> when \<open>s\<close> has no separator.\<close>

function Split :: "char \<Rightarrow> string \<Rightarrow> string list" where
  "Split sep s =
     (if sep \<in> set s
      then takeWhile (\<lambda>c. c \<noteq> sep) s # Split sep (tl (dropWhile (\<lambda>c. c \<noteq> sep) s))
      else [s])"
  by pat_completeness auto
termination
proof (relation "measure (\<lambda>(sep, s). length s)")
  show "wf (measure (\<lambda>(sep, s). length s))" by simp
next
  fix sep :: char and s :: string
  assume "sep \<in> set s"
  then have "dropWhile (\<lambda>c. c \<noteq> sep) s \<noteq> []" by simp
  then have "length (tl (dropWhile (\<lambda>c. c \<noteq> sep) s)) < length (dropWhile (\<lambda>c. c \<noteq> sep) s)"
    by simp
  also have "\<dots> \<le> length s" by (rule length_dropWhile_le)
  finally show "((sep, tl (dropWhile (\<lambda>c. c \<noteq> sep) s)), (sep, s)) \<in> measure (\<lambda>(sep, s). length s)"
    by simp
qed

declare Split.simps [simp del]

text \<open>\<open>strings.SplitN(s, sep, 2)\<close> for a one-byte separator: cut at the first
  separator, or \<open>[s]\<close> when there is none.\<close>

definition SplitN2 :: "char \<Rightarrow> string \<Rightarrow> string list" where
  "SplitN2 sep s =
     (if sep \<in> set s
      then [takeWhile (\<lambda>c. c \<noteq> sep) s, tl (dropWhile (\<lambda>c. c \<noteq> sep) s)]
      else [s])"

definition asciiSpace :: "char \<Rightarrow> bool" where
  "asciiSpace c = (c \<in> set [CHR 0x09, CHR 0x0A, CHR 0x0B, CHR 0x0C, CHR 0x0D, CHR 0x20])"

text \<open>The UTF-8 encodings of the runes beyond ASCII for which \<open>unicode.IsSpace\<close>
  holds: U+0085, U+00A0, U+1680, U+2000 to U+200A, U+2028, U+2029, U+202F, U+205F,
  U+3000.\<close>

definition unicodeSpaces :: "string list" where
  "unicodeSpaces =
     [[CHR 0xC2, CHR 0x85], [CHR 0xC2, CHR 0xA0], [CHR 0xE1, CHR 0x9A, CHR 0x80],
      [CHR 0xE2, CHR 0x80, CHR 0x80], [CHR 0xE2, CHR 0x80, CHR 0x81],
      [CHR 0xE2, CHR 0x80, CHR 0x82], [CHR 0xE2, CHR 0x80, CHR 0x83],
      [CHR 0xE2, CHR 0x80, CHR 0x84], [CHR 0xE2, CHR 0x80, CHR 0x85],
      [CHR 0xE2, CHR 0x80, CHR 0x86], [CHR 0xE2, CHR 0x80, CHR 0x87],
      [CHR 0xE2, CHR 0x80, CHR 0x88], [CHR 0xE2, CHR 0x80, CHR 0x89],
      [CHR 0xE2, CHR 0x80, CHR 0x8A], [CHR 0xE2, CHR 0x80, CHR 0xA8],
      [CHR 0xE2, CHR 0x80, CHR 0xA9], [CHR 0xE2, CHR 0x80, CHR 0xAF],
      [CHR 0xE2, CHR 0x81, CHR 0x9F], [CHR 0xE3, CHR 0x80, CHR 0x80]]"

text \<open>The number of bytes of the white-space rune a string starts with (ends with),
  0 when it starts (ends) with none.\<close>

definition spacePrefix :: "string \<Rightarrow> nat" where
  "spacePrefix s =
     (if s = [] then 0
      else if asciiSpace (hd s) then 1
      else if 2 \<le> length s \<and> take 2 s \<in> set unicodeSpaces then 2
      else if 3 \<le> length s \<and> take 3 s \<in> set unicodeSpaces then 3
      else 0)"

definition spaceSuffix :: "string \<Rightarrow> nat" where
  "spaceSuffix s =
     (if s = [] then 0
      else if asciiSpace (last s) then 1
      else if 2 \<le> length s \<and> drop (length s - 2) s \<in> set unicodeSpaces then 2
      else if 3 \<le> length s \<and> drop (length s - 3) s \<in> set unicodeSpaces then 3
      else 0)"

lemma spacePrefix_le: "spacePrefix s \<le> length s"
  by (auto simp: spacePrefix_def simp flip: length_greater_0_conv)

lemma spaceSuffix_le: "spaceSuffix s \<le> length s"
  by (auto simp: spaceSuffix_def simp flip: length_greater_0_conv)

function TrimLeft :: "string \<Rightarrow> string" where
  "TrimLeft s = (if spacePrefix s = 0 then s else TrimLeft (drop (spacePrefix s) s))"
  by pat_completeness auto
termination
proof (relation "measure length")
  show "wf (measure length)" by simp
next
  fix s :: string
  assume "spacePrefix s \<noteq> 0"
  moreover have "spacePrefix s \<le> length s" by (rule spacePrefix_le)
  ultimately show "(drop (spacePrefix s) s, s) \<in> measure length" by simp
qed

function TrimRight :: "string \<Rightarrow> string" where
  "TrimRight s =
     (if spaceSuffix s = 0 then s else TrimRight (take (length s - spaceSuffix s) s))"
  by pat_completeness auto
termination
proof (relation "measure length")
  show "wf (measure length)" by simp
next
  fix s :: string
  assume "spaceSuffix s \<noteq> 0"
  moreover have "spaceSuffix s \<le> length s" by (rule spaceSuffix_le)
  ultimately show "(take (length s - spaceSuffix s) s, s) \<in> measure length" by simp
qed

declare TrimLeft.simps [simp del] TrimRight.simps [simp del]

definition TrimSpace :: "string \<Rightarrow> string" where
  "TrimSpace s = TrimRight (TrimLeft s)"

text \<open>\<open>strings.Contains(s, sub)\<close>, which the tests use to look for a message in an
  error.\<close>

fun Contains :: "string \<Rightarrow> string \<Rightarrow> bool" where
  "Contains [] sub = (sub = [])"
| "Contains (c # cs) sub = (take (length sub) (c # cs) = sub \<or> Contains cs sub)"

subsection \<open>float64\<close>

text \<open>
  A \<open>float64\<close> is an IEEE 754 binary64 value: a finite number, an infinity (\<open>True\<close>
  for the negative one) or not-a-number. Results are rounded to the nearest
  representable value, ties to the even significand: 53 significant bits, the smallest
  quantum \<open>pow2 (- 1074)\<close>, and an infinity once the rounded value reaches
  \<open>pow2 1024\<close>. The two zeros are one value here: the program only stores the rates,
  and it divides by a positive number only, so it never produces the negative zero.
  Where the sign of a result depends on the sign of a zero, the zero is taken as
  positive.
\<close>

datatype float64 = Finite real | Infinity bool | NaN

definition pow2 :: "int \<Rightarrow> real" where
  "pow2 e = (if 0 \<le> e then 2 ^ nat e else 1 / 2 ^ nat (- e))"

definition roundEven :: "real \<Rightarrow> int" where
  "roundEven y =
     (let f = \<lfloor>y\<rfloor>
      in if y - of_int f < 1 / 2 then f
         else if 1 / 2 < y - of_int f then f + 1
         else if even f then f else f + 1)"

text \<open>The exponent of the unit in the last place of the binary64 values around \<open>x\<close>.\<close>

definition quantum :: "real \<Rightarrow> int" where
  "quantum x = max \<lfloor>log 2 \<bar>x\<bar>\<rfloor> (- 1022) - 52"

definition round64 :: "real \<Rightarrow> float64" where
  "round64 x =
     (if x = 0 then Finite 0
      else (let r = of_int (roundEven (x / pow2 (quantum x))) * pow2 (quantum x)
            in if pow2 1024 \<le> \<bar>r\<bar> then Infinity (x < 0) else Finite r))"

text \<open>The conversion \<open>float64(n)\<close> of an \<open>int\<close>, and the operators \<open>/\<close> and \<open>*\<close>.\<close>

definition float64_of_int :: "int \<Rightarrow> float64" where
  "float64_of_int n = round64 (of_int n)"

fun fdiv :: "float64 \<Rightarrow> float64 \<Rightarrow> float64" where
  "fdiv NaN b = NaN"
| "fdiv a NaN = NaN"
| "fdiv (Infinity a) (Infinity b) = NaN"
| "fdiv (Infinity a) (Finite y) = Infinity (a \<noteq> (y < 0))"
| "fdiv (Finite x) (Infinity b) = Finite 0"
| "fdiv (Finite x) (Finite y) =
     (if y = 0 then (if x = 0 then NaN else Infinity (x < 0)) else round64 (x / y))"

fun fmul :: "float64 \<Rightarrow> float64 \<Rightarrow> float64" where
  "fmul NaN b = NaN"
| "fmul a NaN = NaN"
| "fmul (Infinity a) (Infinity b) = Infinity (a \<noteq> b)"
| "fmul (Infinity a) (Finite y) = (if y = 0 then NaN else Infinity (a \<noteq> (y < 0)))"
| "fmul (Finite x) (Infinity b) = (if x = 0 then NaN else Infinity ((x < 0) \<noteq> b))"
| "fmul (Finite x) (Finite y) = round64 (x * y)"

subsection \<open>io.Reader and bufio.Scanner\<close>

text \<open>
  A reader is the bytes it delivers and the error, if any, that ends it (\<open>None\<close>: it
  ends with \<open>io.EOF\<close>). A \<open>bufio.Scanner\<close> with the default split function
  (\<open>ScanLines\<close>) is what it hands to its caller: the tokens that \<open>Scan\<close> and
  \<open>Text\<close> yield in order, and the value of \<open>Err\<close> once \<open>Scan\<close> has returned
  false.
\<close>

record Reader =
  data :: string
  readErr :: "error option"

record Scanner =
  tokens :: "string list"
  scanErr :: "error option"

definition NewReader :: "string \<Rightarrow> Reader" where
  "NewReader s = \<lparr>data = s, readErr = None\<rparr>"

definition dropCR :: "string \<Rightarrow> string" where
  "dropCR s = (if s \<noteq> [] \<and> last s = CHR 0x0D then butlast s else s)"

definition rawLines :: "string \<Rightarrow> string list" where
  "rawLines s = (let ps = Split (CHR 0x0A) s in if last ps = [] then butlast ps else ps)"

definition MaxScanTokenSize :: nat where
  "MaxScanTokenSize = 64 * 1024"

definition ErrTooLong :: error where
  "ErrTooLong = ''bufio.Scanner: token too long''"

text \<open>
  \<open>bufio.NewScanner(reader)\<close>, run to its end, for a reader that returns its error
  on a call that delivers no bytes: the lines of the data, each without its newline and
  without one carriage return before it; a last line with no newline is a token too,
  also when the reader ends with an error. A line of \<open>MaxScanTokenSize\<close> bytes or more
  does not fit the buffer and stops the scanner with \<open>ErrTooLong\<close>. The properties
  below that hold for every input are stated for every scanner, whatever its tokens and
  its error.
\<close>

definition NewScanner :: "Reader \<Rightarrow> Scanner" where
  "NewScanner r =
     (let ls = rawLines (data r);
          ok = takeWhile (\<lambda>l. length l < MaxScanTokenSize) ls
      in \<lparr>tokens = map dropCR ok,
          scanErr = (if length ok < length ls then Some ErrTooLong else readErr r)\<rparr>)"

section \<open>The data model\<close>

text \<open>
  The repository holds two versions of the package: the extended parser, whose summary
  keeps the file records (src/unnamed/part_006), and the counters-only parser
  (src/unnamed/part_004). The record types, the tokenizer and \<open>Summarize\<close>
  (src/unnamed/part_001) are the same in both.
\<close>

definition RecordTestName :: string where "RecordTestName = ''TN''"
definition RecordSourceFile :: string where "RecordSourceFile = ''SF''"
definition RecordLineData :: string where "RecordLineData = ''DA''"
definition RecordLinesFound :: string where "RecordLinesFound = ''LF''"
definition RecordLinesHit :: string where "RecordLinesHit = ''LH''"
definition RecordEndOfRecord :: string where "RecordEndOfRecord = ''end_of_record''"
definition RecordFunctionName :: string where "RecordFunctionName = ''FN''"
definition RecordFunctionData :: string where "RecordFunctionData = ''FNDA''"
definition RecordBranchData :: string where "RecordBranchData = ''BRDA''"
definition RecordBranchFound :: string where "RecordBranchFound = ''BRF''"
definition RecordBranchHit :: string where "RecordBranchHit = ''BRH''"

record LineData =
  LineNumber :: goint
  ExecutionCount :: goint

record FunctionData =
  FnLineNumber :: goint
  Name :: string

record BranchData =
  BrLineNumber :: goint
  BlockNumber :: goint
  BranchNumber :: goint
  BrExecutionCount :: goint

record FileRecord =
  TestName :: string
  SourceFile :: string
  Lines :: "LineData list"
  LinesFound :: goint
  LinesHit :: goint
  Functions :: "FunctionData list"
  FunctionsHit :: goint
  Branches :: "BranchData list"
  BranchesFound :: goint
  BranchesHit :: goint

text \<open>
  The summary of the counters-only parser, and the summary of the extended parser, which
  has the same fields and the list of file records after them. The three rates are
  \<open>float64\<close> values.
\<close>

record SummaryCounters =
  TotalFiles :: goint
  TotalLines :: goint
  CoveredLines :: goint
  LineCoverageRate :: float64
  TotalFunctions :: goint
  CoveredFunctions :: goint
  FunctionCoverageRate :: float64
  TotalBranches :: goint
  CoveredBranches :: goint
  BranchCoverageRate :: float64

record Summary = SummaryCounters +
  Files :: "FileRecord list"

record Record =
  Type :: string
  Value :: string

record Parser =
  scanner :: Scanner

definition NewParser :: "Reader \<Rightarrow> Parser" where
  "NewParser reader = \<lparr>scanner = NewScanner reader\<rparr>"

section \<open>The tokenizer and the validators\<close>

text \<open>\<open>parseRecord\<close>, and \<open>parseLineData\<close>, \<open>parseFunctionName\<close> and
  \<open>parseBranchData\<close> of the extended parser.\<close>

definition parseRecord :: "string \<Rightarrow> error + Record" where
  "parseRecord line =
     (if line = ''end_of_record'' then Inr \<lparr>Type = RecordEndOfRecord, Value = []\<rparr>
      else (let parts = SplitN2 (CHR '':'') line
            in if length parts \<noteq> 2 then Inl (''invalid record format: '' @ line)
               else Inr \<lparr>Type = parts ! 0, Value = parts ! 1\<rparr>))"

definition parseLineData :: "string \<Rightarrow> error + LineData" where
  "parseLineData v =
     (let parts = Split (CHR '','') v
      in if length parts \<noteq> 2 then Inl (''invalid line data format: '' @ v)
         else (case Atoi (parts ! 0) of
                 None \<Rightarrow> Inl (''invalid line number: '' @ parts ! 0)
               | Some lineNumber \<Rightarrow>
                   (case Atoi (parts ! 1) of
                      None \<Rightarrow> Inl (''invalid execution count: '' @ parts ! 1)
                    | Some executionCount \<Rightarrow>
                        Inr \<lparr>LineNumber = lineNumber, ExecutionCount = executionCount\<rparr>)))"

definition parseFunctionName :: "string \<Rightarrow> error + FunctionData" where
  "parseFunctionName v =
     (let parts = SplitN2 (CHR '','') v
      in if length parts \<noteq> 2 then Inl (''invalid function name format: '' @ v)
         else (case Atoi (parts ! 0) of
                 None \<Rightarrow> Inl (''invalid function line number: '' @ parts ! 0)
               | Some lineNumber \<Rightarrow>
                   Inr \<lparr>FnLineNumber = lineNumber, Name = parts ! 1\<rparr>))"

definition parseBranchData :: "string \<Rightarrow> error + BranchData" where
  "parseBranchData v =
     (let parts = Split (CHR '','') v
      in if length parts \<noteq> 4 then Inl (''invalid branch data format: '' @ v)
         else (case Atoi (parts ! 0) of
                 None \<Rightarrow> Inl (''invalid branch line number: '' @ parts ! 0)
               | Some lineNumber \<Rightarrow>
           (case Atoi (parts ! 1) of
                 None \<Rightarrow> Inl (''invalid branch block number: '' @ parts ! 1)
               | Some blockNumber \<Rightarrow>
           (case Atoi (parts ! 2) of
                 None \<Rightarrow> Inl (''invalid branch number: '' @ parts ! 2)
               | Some branchNumber \<Rightarrow>
           (if parts ! 3 \<noteq> ''-''
            then (case Atoi (parts ! 3) of
                    None \<Rightarrow> Inl (''invalid branch execution count: '' @ parts ! 3)
                  | Some executionCount \<Rightarrow>
                      Inr \<lparr>BrLineNumber = lineNumber, BlockNumber = blockNumber,
                           BranchNumber = branchNumber, BrExecutionCount = executionCount\<rparr>)
            else Inr \<lparr>BrLineNumber = lineNumber, BlockNumber = blockNumber,
                      BranchNumber = branchNumber, BrExecutionCount = 0\<rparr>)))))"

text \<open>The function-data record: the count is taken only when the value has exactly two
  comma-separated parts, the first an integer above 0.\<close>

definition functionDataHit :: "string \<Rightarrow> bool" where
  "functionDataHit v =
     (let parts = Split (CHR '','') v
      in if length parts = 2
         then (case Atoi (parts ! 0) of None \<Rightarrow> False | Some execCount \<Rightarrow> 0 <s execCount)
         else False)"

text \<open>The validators of the counters-only parser.\<close>

definition isValidLineData :: "string \<Rightarrow> bool" where
  "isValidLineData v =
     (let parts = Split (CHR '','') v
      in if length parts \<noteq> 2 then False
         else Atoi (parts ! 0) \<noteq> None \<and> Atoi (parts ! 1) \<noteq> None)"

definition isValidFunctionName :: "string \<Rightarrow> bool" where
  "isValidFunctionName v =
     (let parts = SplitN2 (CHR '','') v
      in if length parts \<noteq> 2 then False else Atoi (parts ! 0) \<noteq> None)"

definition isValidBranchData :: "string \<Rightarrow> bool" where
  "isValidBranchData v =
     (let parts = Split (CHR '','') v
      in if length parts \<noteq> 4 then False
         else Atoi (parts ! 0) \<noteq> None \<and> Atoi (parts ! 1) \<noteq> None \<and> Atoi (parts ! 2) \<noteq> None
              \<and> (parts ! 3 = ''-'' \<or> Atoi (parts ! 3) \<noteq> None))"

section \<open>The final rates\<close>

text \<open>The end of \<open>Parse\<close>, the same in both parsers.
  A rate is assigned only when its total is above 0; otherwise the field keeps the
  value it has.\<close>

definition calcRates :: "'a SummaryCounters_scheme \<Rightarrow> 'a SummaryCounters_scheme" where
  "calcRates s0 =
     (let s1 = (if 0 <s TotalLines s0
                then s0\<lparr>LineCoverageRate :=
                          fmul (fdiv (float64_of_int (sint (CoveredLines s0)))
                                     (float64_of_int (sint (TotalLines s0)))) (Finite 100)\<rparr>
                else s0);
          s2 = (if 0 <s TotalFunctions s1
                then s1\<lparr>FunctionCoverageRate :=
                          fmul (fdiv (float64_of_int (sint (CoveredFunctions s1)))
                                     (float64_of_int (sint (TotalFunctions s1)))) (Finite 100)\<rparr>
                else s1)
      in if 0 <s TotalBranches s2
         then s2\<lparr>BranchCoverageRate :=
                   fmul (fdiv (float64_of_int (sint (CoveredBranches s2)))
                              (float64_of_int (sint (TotalBranches s2)))) (Finite 100)\<rparr>
         else s2)"

section \<open>The extended parser\<close>

text \<open>\<open>Parse\<close> of src/unnamed/part_006. The state of the loop of \<open>Parse\<close>: the summary built so far and the file record
  that is open (\<open>None\<close> for the nil pointer).\<close>

record pstate =
  summary :: Summary
  currentFile :: "FileRecord option"

definition emptySummary :: Summary where
  "emptySummary =
     \<lparr>TotalFiles = 0, TotalLines = 0, CoveredLines = 0, LineCoverageRate = Finite 0,
      TotalFunctions = 0, CoveredFunctions = 0, FunctionCoverageRate = Finite 0,
      TotalBranches = 0, CoveredBranches = 0, BranchCoverageRate = Finite 0, Files = []\<rparr>"

definition newFileRecord :: "string \<Rightarrow> FileRecord" where
  "newFileRecord tn =
     \<lparr>TestName = tn, SourceFile = [], Lines = [], LinesFound = 0, LinesHit = 0,
      Functions = [], FunctionsHit = 0, Branches = [], BranchesFound = 0, BranchesHit = 0\<rparr>"

definition initState :: pstate where
  "initState = \<lparr>summary = emptySummary, currentFile = None\<rparr>"

definition closeFile :: "Summary \<Rightarrow> FileRecord \<Rightarrow> Summary" where
  "closeFile s f =
     s\<lparr>Files := Files s @ [f],
       TotalFiles := TotalFiles s + 1,
       TotalLines := TotalLines s + LinesFound f,
       CoveredLines := CoveredLines s + LinesHit f,
       TotalFunctions := TotalFunctions s + of_nat (length (Functions f)),
       CoveredFunctions := CoveredFunctions s + FunctionsHit f,
       TotalBranches := TotalBranches s + BranchesFound f,
       CoveredBranches := CoveredBranches s + BranchesHit f\<rparr>"

text \<open>The \<open>switch\<close> on the type of the record.\<close>

definition handleRecord :: "pstate \<Rightarrow> Record \<Rightarrow> error + pstate" where
  "handleRecord st r =
     (if Type r = RecordTestName then
        (case currentFile st of
           None \<Rightarrow> Inr (st\<lparr>currentFile := Some (newFileRecord (Value r))\<rparr>)
         | Some f \<Rightarrow> Inr (st\<lparr>currentFile := Some (f\<lparr>TestName := Value r\<rparr>)\<rparr>))
      else if Type r = RecordSourceFile then
        (case currentFile st of
           None \<Rightarrow> Inr (st\<lparr>currentFile := Some ((newFileRecord [])\<lparr>SourceFile := Value r\<rparr>)\<rparr>)
         | Some f \<Rightarrow> Inr (st\<lparr>currentFile := Some (f\<lparr>SourceFile := Value r\<rparr>)\<rparr>))
      else if Type r = RecordLineData then
        (case currentFile st of
           None \<Rightarrow> Inl ''line data without source file''
         | Some f \<Rightarrow>
             (case parseLineData (Value r) of
                Inl err \<Rightarrow> Inl err
              | Inr lineData \<Rightarrow> Inr (st\<lparr>currentFile := Some (f\<lparr>Lines := Lines f @ [lineData]\<rparr>)\<rparr>)))
      else if Type r = RecordLinesFound then
        (case currentFile st of
           None \<Rightarrow> Inl ''lines found without source file''
         | Some f \<Rightarrow>
             (case Atoi (Value r) of
                None \<Rightarrow> Inl (''invalid lines found value: '' @ Value r)
              | Some linesFound \<Rightarrow> Inr (st\<lparr>currentFile := Some (f\<lparr>LinesFound := linesFound\<rparr>)\<rparr>)))
      else if Type r = RecordLinesHit then
        (case currentFile st of
           None \<Rightarrow> Inl ''lines hit without source file''
         | Some f \<Rightarrow>
             (case Atoi (Value r) of
                None \<Rightarrow> Inl (''invalid lines hit value: '' @ Value r)
              | Some linesHit \<Rightarrow> Inr (st\<lparr>currentFile := Some (f\<lparr>LinesHit := linesHit\<rparr>)\<rparr>)))
      else if Type r = RecordFunctionName then
        (case currentFile st of
           None \<Rightarrow> Inl ''function name without source file''
         | Some f \<Rightarrow>
             (case parseFunctionName (Value r) of
                Inl err \<Rightarrow> Inl err
              | Inr functionData \<Rightarrow>
                  Inr (st\<lparr>currentFile := Some (f\<lparr>Functions := Functions f @ [functionData]\<rparr>)\<rparr>)))
      else if Type r = RecordFunctionData then
        (case currentFile st of
           None \<Rightarrow> Inl ''function data without source file''
         | Some f \<Rightarrow>
             (if functionDataHit (Value r)
              then Inr (st\<lparr>currentFile := Some (f\<lparr>FunctionsHit := FunctionsHit f + 1\<rparr>)\<rparr>)
              else Inr st))
      else if Type r = RecordBranchData then
        (case currentFile st of
           None \<Rightarrow> Inl ''branch data without source file''
         | Some f \<Rightarrow>
             (case parseBranchData (Value r) of
                Inl err \<Rightarrow> Inl err
              | Inr branchData \<Rightarrow>
                  Inr (st\<lparr>currentFile := Some (f\<lparr>Branches := Branches f @ [branchData]\<rparr>)\<rparr>)))
      else if Type r = RecordBranchFound then
        (case currentFile st of
           None \<Rightarrow> Inl ''branch found without source file''
         | Some f \<Rightarrow>
             (case Atoi (Value r) of
                None \<Rightarrow> Inl (''invalid branches found value: '' @ Value r)
              | Some branchesFound \<Rightarrow>
                  Inr (st\<lparr>currentFile := Some (f\<lparr>BranchesFound := branchesFound\<rparr>)\<rparr>)))
      else if Type r = RecordBranchHit then
        (case currentFile st of
           None \<Rightarrow> Inl ''branch hit without source file''
         | Some f \<Rightarrow>
             (case Atoi (Value r) of
                None \<Rightarrow> Inl (''invalid branches hit value: '' @ Value r)
              | Some branchesHit \<Rightarrow>
                  Inr (st\<lparr>currentFile := Some (f\<lparr>BranchesHit := branchesHit\<rparr>)\<rparr>)))
      else if Type r = RecordEndOfRecord then
        (case currentFile st of
           None \<Rightarrow> Inr st
         | Some f \<Rightarrow> Inr \<lparr>summary = closeFile (summary st) f, currentFile = None\<rparr>)
      else Inr st)"

text \<open>One turn of the loop, on the text of one token.\<close>

definition parseFailure :: "string \<Rightarrow> error \<Rightarrow> error" where
  "parseFailure line err = ''failed to parse line '' @ [CHR 0x27] @ line @ [CHR 0x27] @ '': '' @ err"

definition step :: "pstate \<Rightarrow> string \<Rightarrow> error + pstate" where
  "step st text =
     (let line = TrimSpace text
      in if line = [] then Inr st
         else (case parseRecord line of
                 Inl err \<Rightarrow> Inl (parseFailure line err)
               | Inr r \<Rightarrow> handleRecord st r))"

fun run :: "pstate \<Rightarrow> string list \<Rightarrow> error + pstate" where
  "run st [] = Inr st"
| "run st (t # ts) = (case step st t of Inl err \<Rightarrow> Inl err | Inr st' \<Rightarrow> run st' ts)"

text \<open>\<open>Parse\<close> returns a pointer to a summary and an error, each of which may be nil.\<close>

definition Parse :: "Parser \<Rightarrow> Summary option \<times> error option" where
  "Parse p =
     (case run initState (tokens (scanner p)) of
        Inl err \<Rightarrow> (None, Some err)
      | Inr st \<Rightarrow> (Some (calcRates (summary st)), scanErr (scanner p)))"

definition Summarize :: "Reader \<Rightarrow> Summary option \<times> error option" where
  "Summarize reader = Parse (NewParser reader)"

section \<open>The counters-only parser\<close>

text \<open>\<open>Parse\<close> of src/unnamed/part_004, under the name \<open>ParseCounters\<close>: its
  state is the summary, the six counters of the current file and the flag \<open>inFile\<close>.\<close>

record cstate =
  csummary :: SummaryCounters
  currentFileLinesFound :: goint
  currentFileLinesHit :: goint
  currentFileFunctions :: goint
  currentFileFunctionsHit :: goint
  currentFileBranchesFound :: goint
  currentFileBranchesHit :: goint
  inFile :: bool

definition emptyCounters :: SummaryCounters where
  "emptyCounters =
     \<lparr>TotalFiles = 0, TotalLines = 0, CoveredLines = 0, LineCoverageRate = Finite 0,
      TotalFunctions = 0, CoveredFunctions = 0, FunctionCoverageRate = Finite 0,
      TotalBranches = 0, CoveredBranches = 0, BranchCoverageRate = Finite 0\<rparr>"

definition initCounters :: cstate where
  "initCounters =
     \<lparr>csummary = emptyCounters, currentFileLinesFound = 0, currentFileLinesHit = 0,
      currentFileFunctions = 0, currentFileFunctionsHit = 0, currentFileBranchesFound = 0,
      currentFileBranchesHit = 0, inFile = False\<rparr>"

definition addCounters :: "cstate \<Rightarrow> SummaryCounters" where
  "addCounters st =
     (csummary st)\<lparr>
       TotalFiles := TotalFiles (csummary st) + 1,
       TotalLines := TotalLines (csummary st) + currentFileLinesFound st,
       CoveredLines := CoveredLines (csummary st) + currentFileLinesHit st,
       TotalFunctions := TotalFunctions (csummary st) + currentFileFunctions st,
       CoveredFunctions := CoveredFunctions (csummary st) + currentFileFunctionsHit st,
       TotalBranches := TotalBranches (csummary st) + currentFileBranchesFound st,
       CoveredBranches := CoveredBranches (csummary st) + currentFileBranchesHit st\<rparr>"

definition handleRecordCounters :: "cstate \<Rightarrow> Record \<Rightarrow> error + cstate" where
  "handleRecordCounters st r =
     (if Type r = RecordTestName then Inr st
      else if Type r = RecordSourceFile then
        Inr (st\<lparr>inFile := True, currentFileLinesFound := 0, currentFileLinesHit := 0,
                currentFileFunctions := 0, currentFileFunctionsHit := 0,
                currentFileBranchesFound := 0, currentFileBranchesHit := 0\<rparr>)
      else if Type r = RecordLineData then
        (if \<not> inFile st then Inl ''line data without source file''
         else if \<not> isValidLineData (Value r) then Inl (''invalid line data format: '' @ Value r)
         else Inr st)
      else if Type r = RecordLinesFound then
        (if \<not> inFile st then Inl ''lines found without source file''
         else (case Atoi (Value r) of
                 None \<Rightarrow> Inl (''invalid lines found value: '' @ Value r)
               | Some linesFound \<Rightarrow> Inr (st\<lparr>currentFileLinesFound := linesFound\<rparr>)))
      else if Type r = RecordLinesHit then
        (if \<not> inFile st then Inl ''lines hit without source file''
         else (case Atoi (Value r) of
                 None \<Rightarrow> Inl (''invalid lines hit value: '' @ Value r)
               | Some linesHit \<Rightarrow> Inr (st\<lparr>currentFileLinesHit := linesHit\<rparr>)))
      else if Type r = RecordFunctionName then
        (if \<not> inFile st then Inl ''function name without source file''
         else if \<not> isValidFunctionName (Value r)
           then Inl (''invalid function name format: '' @ Value r)
         else Inr (st\<lparr>currentFileFunctions := currentFileFunctions st + 1\<rparr>))
      else if Type r = RecordFunctionData then
        (if \<not> inFile st then Inl ''function data without source file''
         else if functionDataHit (Value r)
           then Inr (st\<lparr>currentFileFunctionsHit := currentFileFunctionsHit st + 1\<rparr>)
         else Inr st)
      else if Type r = RecordBranchData then
        (if \<not> inFile st then Inl ''branch data without source file''
         else if \<not> isValidBranchData (Value r)
           then Inl (''invalid branch data format: '' @ Value r)
         else Inr st)
      else if Type r = RecordBranchFound then
        (if \<not> inFile st then Inl ''branch found without source file''
         else (case Atoi (Value r) of
                 None \<Rightarrow> Inl (''invalid branches found value: '' @ Value r)
               | Some branchesFound \<Rightarrow> Inr (st\<lparr>currentFileBranchesFound := branchesFound\<rparr>)))
      else if Type r = RecordBranchHit then
        (if \<not> inFile st then Inl ''branch hit without source file''
         else (case Atoi (Value r) of
                 None \<Rightarrow> Inl (''invalid branches hit value: '' @ Value r)
               | Some branchesHit \<Rightarrow> Inr (st\<lparr>currentFileBranchesHit := branchesHit\<rparr>)))
      else if Type r = RecordEndOfRecord then
        (if inFile st then Inr (st\<lparr>csummary := addCounters st, inFile := False\<rparr>)
         else Inr st)
      else Inr st)"

definition stepCounters :: "cstate \<Rightarrow> string \<Rightarrow> error + cstate" where
  "stepCounters st text =
     (let line = TrimSpace text
      in if line = [] then Inr st
         else (case parseRecord line of
                 Inl err \<Rightarrow> Inl (parseFailure line err)
               | Inr r \<Rightarrow> handleRecordCounters st r))"

fun runCounters :: "cstate \<Rightarrow> string list \<Rightarrow> error + cstate" where
  "runCounters st [] = Inr st"
| "runCounters st (t # ts) =
     (case stepCounters st t of Inl err \<Rightarrow> Inl err | Inr st' \<Rightarrow> runCounters st' ts)"

definition ParseCounters :: "Parser \<Rightarrow> SummaryCounters option \<times> error option" where
  "ParseCounters p =
     (case runCounters initCounters (tokens (scanner p)) of
        Inl err \<Rightarrow> (None, Some err)
      | Inr st \<Rightarrow> (Some (calcRates (csummary st)), scanErr (scanner p)))"

definition SummarizeCounters :: "Reader \<Rightarrow> SummaryCounters option \<times> error option" where
  "SummarizeCounters reader = ParseCounters (NewParser reader)"

section \<open>Notions used to state the properties\<close>

text \<open>The record that one turn of the loop hands to the \<open>switch\<close>: none for a blank
  line and for a line the tokenizer rejects.\<close>

definition recordAt :: "string \<Rightarrow> Record option" where
  "recordAt text =
     (let line = TrimSpace text
      in if line = [] then None
         else (case parseRecord line of Inl err \<Rightarrow> None | Inr r \<Rightarrow> Some r))"

text \<open>The ten tags that carry a value, and the eight file-scoped ones with the name
  each has in the sequencing error.\<close>

definition recognizedTags :: "string list" where
  "recognizedTags =
     [RecordTestName, RecordSourceFile, RecordLineData, RecordLinesFound, RecordLinesHit,
      RecordFunctionName, RecordFunctionData, RecordBranchData, RecordBranchFound,
      RecordBranchHit]"

definition fileScopedKinds :: "(string \<times> string) list" where
  "fileScopedKinds =
     [(RecordLineData, ''line data''), (RecordLinesFound, ''lines found''),
      (RecordLinesHit, ''lines hit''), (RecordFunctionName, ''function name''),
      (RecordFunctionData, ''function data''), (RecordBranchData, ''branch data''),
      (RecordBranchFound, ''branch found''), (RecordBranchHit, ''branch hit'')]"

definition sequencingError :: "string \<Rightarrow> error" where
  "sequencingError kind = kind @ '' without source file''"

text \<open>A token that the loop handles as an end-of-record marker, and the tokens up to
  and including the last such marker.\<close>

definition isEndOfRecord :: "string \<Rightarrow> bool" where
  "isEndOfRecord t = (case recordAt t of None \<Rightarrow> False | Some r \<Rightarrow> Type r = RecordEndOfRecord)"

definition throughLastEnd :: "string list \<Rightarrow> string list" where
  "throughLastEnd ts = rev (dropWhile (\<lambda>t. \<not> isEndOfRecord t) (rev ts))"

text \<open>Scenario A of the specification: two file blocks.\<close>

definition scenarioA :: string where
  "scenarioA = ''SF:/a.go\<newline>DA:1,1\<newline>DA:2,0\<newline>LF:2\<newline>LH:1\<newline>end_of_record\<newline>SF:/b.go\<newline>DA:1,1\<newline>LF:1\<newline>LH:1\<newline>end_of_record''"

text \<open>The three rates still have the zero value a new summary starts with.\<close>

definition ratesUnset :: "'a SummaryCounters_scheme \<Rightarrow> bool" where
  "ratesUnset s =
     (LineCoverageRate s = Finite 0 \<and> FunctionCoverageRate s = Finite 0
      \<and> BranchCoverageRate s = Finite 0)"

text \<open>\<open>a\<close> is \<open>b\<close> up to the relative error \<open>eps\<close>.\<close>

definition close :: "real \<Rightarrow> real \<Rightarrow> real \<Rightarrow> bool" where
  "close eps a b = (\<bar>a - b\<bar> \<le> eps * \<bar>b\<bar>)"

text \<open>
  What the amended claim C1 says of one rate \<open>x\<close>: with a total above 0 it is the
  \<open>float64\<close> value of \<open>float64(covered) / float64(total) * 100\<close>, a finite number
  within the relative error \<open>pow2 (- 50)\<close> of \<open>100 * covered / total\<close>; otherwise it
  is 0.
\<close>

definition coverageRate :: "float64 \<Rightarrow> goint \<Rightarrow> goint \<Rightarrow> bool" where
  "coverageRate x c t =
     (if 0 <s t
      then x = fmul (fdiv (float64_of_int (sint c)) (float64_of_int (sint t)))
                 (Finite 100)
           \<and> (case x of
                Finite r \<Rightarrow>
                  close (pow2 (- 50)) r
                    (100 * real_of_int (sint c) / real_of_int (sint t))
              | Infinity b \<Rightarrow> False
              | NaN \<Rightarrow> False)
      else x = Finite 0)"

text \<open>A state of the loop with a file block open and nothing counted yet.\<close>

definition openBlock :: pstate where
  "openBlock = \<lparr>summary = emptySummary, currentFile = Some ((newFileRecord [])\<lparr>SourceFile := ''a''\<rparr>)\<rparr>"

text \<open>
  Whether a file block is open after a sequence of tokens, read off the tokens alone: an
  end-of-record marker closes the block, an opening record opens it. In the reading
  \<open>sourceFileBlockOpen\<close> only a source-file record opens a block; in the reading
  \<open>fileBlockOpen\<close> a test-name record opens one as well.
\<close>

definition isSourceFile :: "string \<Rightarrow> bool" where
  "isSourceFile t = (case recordAt t of None \<Rightarrow> False | Some r \<Rightarrow> Type r = RecordSourceFile)"

definition isTestName :: "string \<Rightarrow> bool" where
  "isTestName t = (case recordAt t of None \<Rightarrow> False | Some r \<Rightarrow> Type r = RecordTestName)"

fun blockOpenAfter :: "(string \<Rightarrow> bool) \<Rightarrow> bool \<Rightarrow> string list \<Rightarrow> bool" where
  "blockOpenAfter opens b [] = b"
| "blockOpenAfter opens b (t # ts) =
     blockOpenAfter opens (if isEndOfRecord t then False else if opens t then True else b) ts"

definition sourceFileBlockOpen :: "string list \<Rightarrow> bool" where
  "sourceFileBlockOpen pre = blockOpenAfter isSourceFile False pre"

definition fileBlockOpen :: "string list \<Rightarrow> bool" where
  "fileBlockOpen pre = blockOpenAfter (\<lambda>t. isSourceFile t \<or> isTestName t) False pre"

text \<open>The fields that the summaries of the two parsers share.\<close>

definition shared :: "Summary \<Rightarrow> SummaryCounters" where
  "shared s =
     \<lparr>TotalFiles = TotalFiles s, TotalLines = TotalLines s, CoveredLines = CoveredLines s,
      LineCoverageRate = LineCoverageRate s, TotalFunctions = TotalFunctions s,
      CoveredFunctions = CoveredFunctions s, FunctionCoverageRate = FunctionCoverageRate s,
      TotalBranches = TotalBranches s, CoveredBranches = CoveredBranches s,
      BranchCoverageRate = BranchCoverageRate s\<rparr>"

text \<open>
  The inputs on which the two parsers are compared. A phase is read off the records
  alone: \<open>Idle\<close> after an end-of-record marker (and at the start), \<open>Pending\<close> after
  a test-name record met in \<open>Idle\<close>, \<open>InFile\<close> after a source-file record. An input
  is canonical when no source-file record comes in phase \<open>InFile\<close>, and no
  file-scoped record and no end-of-record marker comes in phase \<open>Pending\<close>.
\<close>

datatype phase = Idle | Pending | InFile

definition phaseStep :: "phase \<Rightarrow> Record \<Rightarrow> phase option" where
  "phaseStep ph r =
     (if Type r = RecordTestName then Some (if ph = Idle then Pending else ph)
      else if Type r = RecordSourceFile then (if ph = InFile then None else Some InFile)
      else if Type r = RecordEndOfRecord then (if ph = Pending then None else Some Idle)
      else if Type r \<in> set (map fst fileScopedKinds) then (if ph = Pending then None else Some ph)
      else Some ph)"

fun canonical :: "phase \<Rightarrow> string list \<Rightarrow> bool" where
  "canonical ph [] = True"
| "canonical ph (t # ts) =
     (case recordAt t of
        None \<Rightarrow> canonical ph ts
      | Some r \<Rightarrow> (case phaseStep ph r of None \<Rightarrow> False | Some ph' \<Rightarrow> canonical ph' ts))"

text \<open>The relation between the states of the two loops in each phase.\<close>

definition sameCounters :: "FileRecord \<Rightarrow> cstate \<Rightarrow> bool" where
  "sameCounters f ct =
     (LinesFound f = currentFileLinesFound ct \<and> LinesHit f = currentFileLinesHit ct
      \<and> of_nat (length (Functions f)) = currentFileFunctions ct
      \<and> FunctionsHit f = currentFileFunctionsHit ct
      \<and> BranchesFound f = currentFileBranchesFound ct
      \<and> BranchesHit f = currentFileBranchesHit ct)"

definition noCounts :: "FileRecord \<Rightarrow> bool" where
  "noCounts f =
     (LinesFound f = 0 \<and> LinesHit f = 0 \<and> Functions f = [] \<and> FunctionsHit f = 0
      \<and> BranchesFound f = 0 \<and> BranchesHit f = 0)"

definition related :: "phase \<Rightarrow> pstate \<Rightarrow> cstate \<Rightarrow> bool" where
  "related ph st ct =
     (shared (summary st) = csummary ct
      \<and> (case ph of
            Idle \<Rightarrow> currentFile st = None \<and> \<not> inFile ct
          | Pending \<Rightarrow> (\<exists>f. currentFile st = Some f \<and> noCounts f) \<and> \<not> inFile ct
          | InFile \<Rightarrow> (\<exists>f. currentFile st = Some f \<and> sameCounters f ct) \<and> inFile ct))"

text \<open>
  The totals as the specification describes them, computed from the records alone. The
  records that the loop handles are cut into the spans that end with an end-of-record
  marker; what follows the last marker is dropped. Line-data and branch-data records are
  left out before anything is counted. In a span, the value of a tag is the integer of
  the last record with that tag (0 when there is none), the functions found are the
  function-name records, and the functions hit are the function-data records that count
  (see \<open>functionDataHit\<close>).
\<close>

definition handled :: "string list \<Rightarrow> Record list" where
  "handled ts = concat (map (\<lambda>t. case recordAt t of None \<Rightarrow> [] | Some r \<Rightarrow> [r]) ts)"

definition countedRecords :: "string list \<Rightarrow> Record list" where
  "countedRecords ts =
     filter (\<lambda>r. Type r \<noteq> RecordLineData \<and> Type r \<noteq> RecordBranchData) (handled ts)"

fun closedBlocks :: "Record list \<Rightarrow> Record list \<Rightarrow> Record list list" where
  "closedBlocks cur [] = []"
| "closedBlocks cur (r # rs) =
     (if Type r = RecordEndOfRecord then cur # closedBlocks [] rs
      else closedBlocks (cur @ [r]) rs)"

definition lastValue :: "string \<Rightarrow> Record list \<Rightarrow> goint" where
  "lastValue tag b =
     (case filter (\<lambda>r. Type r = tag) b of
        [] \<Rightarrow> 0
      | x # xs \<Rightarrow> (case Atoi (Value (last (x # xs))) of None \<Rightarrow> 0 | Some n \<Rightarrow> n))"

definition countFunctions :: "Record list \<Rightarrow> goint" where
  "countFunctions b = of_nat (length (filter (\<lambda>r. Type r = RecordFunctionName) b))"

definition countFunctionHits :: "Record list \<Rightarrow> goint" where
  "countFunctionHits b =
     of_nat (length (filter (\<lambda>r. Type r = RecordFunctionData \<and> functionDataHit (Value r)) b))"

text \<open>The counters of the open file record are those of the span read so far.\<close>

definition blockInv :: "pstate \<Rightarrow> Record list \<Rightarrow> bool" where
  "blockInv st cur =
     (case currentFile st of
        None \<Rightarrow>
          lastValue RecordLinesFound cur = 0 \<and> lastValue RecordLinesHit cur = 0
          \<and> countFunctions cur = 0 \<and> countFunctionHits cur = 0
          \<and> lastValue RecordBranchFound cur = 0 \<and> lastValue RecordBranchHit cur = 0
      | Some f \<Rightarrow>
          LinesFound f = lastValue RecordLinesFound cur \<and> LinesHit f = lastValue RecordLinesHit cur
          \<and> of_nat (length (Functions f)) = countFunctions cur
          \<and> FunctionsHit f = countFunctionHits cur
          \<and> BranchesFound f = lastValue RecordBranchFound cur
          \<and> BranchesHit f = lastValue RecordBranchHit cur)"

text \<open>An input with two closed file blocks and a third that is left open.\<close>

definition threeBlocks :: "string list" where
  "threeBlocks =
     [''SF:a'', ''DA:1,1'', ''LF:9'', ''LF:2'', ''LH:1'', ''FN:1,f'', ''FN:5,g'', ''FNDA:3,f'',
      ''FNDA:0,g'', ''FNDA:bad'', ''BRDA:1,0,0,-'', ''BRF:4'', ''BRH:2'', ''end_of_record'',
      ''TN:t'', ''SF:b'', ''LF:1'', ''LH:1'', ''end_of_record'',
      ''SF:c'', ''LF:7'', ''FN:1,h'']"

section \<open>Rounding to float64\<close>

lemma pow2_powr: "pow2 e = 2 powr (of_int e)"
proof (cases "0 \<le> e")
  case True
  then have "2 powr (of_int e) = (2::real) powr (real (nat e))" by simp
  also have "\<dots> = 2 ^ nat e" by (rule powr_realpow) simp
  finally show ?thesis using True by (simp add: pow2_def)
next
  case False
  then have "(2::real) powr (of_int e) = 2 powr (- real (nat (- e)))" by simp
  also have "\<dots> = 1 / 2 powr (real (nat (- e)))" by (simp add: powr_minus_divide)
  also have "2 powr (real (nat (- e))) = (2::real) ^ nat (- e)" by (rule powr_realpow) simp
  finally show ?thesis using False by (simp add: pow2_def)
qed

lemma pow2_pos: "0 < pow2 e"
  by (simp add: pow2_powr)

lemma pow2_add: "pow2 (a + b) = pow2 a * pow2 b"
  by (simp add: pow2_powr powr_add)

lemma pow2_mono: "a \<le> b \<Longrightarrow> pow2 a \<le> pow2 b"
  by (simp add: pow2_powr)

lemma pow2_nat: "pow2 (int n) = 2 ^ n"
  by (simp add: pow2_def)

lemma roundEven_err: "\<bar>of_int (roundEven y) - y\<bar> \<le> 1 / 2"
  unfolding roundEven_def Let_def by (auto; linarith)

lemma roundEven_int: "roundEven (of_int n) = n"
  by (simp add: roundEven_def)

lemma floor_log2_le: assumes "0 < x" shows "pow2 \<lfloor>log 2 x\<rfloor> \<le> x"
proof -
  have "\<lfloor>log 2 x\<rfloor> = \<lfloor>log 2 x\<rfloor>" ..
  with floor_log_eq_powr_iff [of x 2 "\<lfloor>log 2 x\<rfloor>"] assms
  have "2 powr (of_int \<lfloor>log 2 x\<rfloor>) \<le> x" by simp
  then show ?thesis by (simp add: pow2_powr)
qed

lemma floor_log2_less: assumes "0 < x" shows "x < pow2 (\<lfloor>log 2 x\<rfloor> + 1)"
proof -
  have "\<lfloor>log 2 x\<rfloor> = \<lfloor>log 2 x\<rfloor>" ..
  with floor_log_eq_powr_iff [of x 2 "\<lfloor>log 2 x\<rfloor>"] assms
  have "x < 2 powr (of_int \<lfloor>log 2 x\<rfloor> + 1)" by simp
  then show ?thesis by (simp add: pow2_powr)
qed

lemma floor_log2_eq: "pow2 k \<le> x \<Longrightarrow> x < pow2 (k + 1) \<Longrightarrow> \<lfloor>log 2 x\<rfloor> = k"
proof -
  assume a: "pow2 k \<le> x" "x < pow2 (k + 1)"
  with pow2_pos [of k] have "0 < x" by linarith
  with floor_log_eq_powr_iff [of x 2 k] a show ?thesis by (simp add: pow2_powr)
qed

lemma pow2_less: "a < b \<Longrightarrow> pow2 a < pow2 b"
  by (simp add: pow2_powr)

lemma pow2_le_iff: "pow2 a \<le> pow2 b \<longleftrightarrow> a \<le> b"
  by (simp add: pow2_powr)

lemma pow2_less_iff: "pow2 a < pow2 b \<longleftrightarrow> a < b"
  by (simp add: pow2_powr)

lemma pow2_0: "pow2 0 = 1"
  by (simp add: pow2_def)

lemma pow2_diff: "pow2 (a - b) = pow2 a / pow2 b"
  by (simp add: pow2_powr powr_diff)

lemma pow2_half: "pow2 q / 2 = pow2 (q - 1)"
  using pow2_diff [of q 1] by (simp add: pow2_def)

lemma round64_at:
  assumes "pow2 k \<le> \<bar>x\<bar>" and "\<bar>x\<bar> < pow2 (k + 1)" and "- 1022 \<le> k"
  shows "round64 x =
     (let r = of_int (roundEven (x / pow2 (k - 52))) * pow2 (k - 52)
      in if pow2 1024 \<le> \<bar>r\<bar> then Infinity (x < 0) else Finite r)"
proof -
  from assms(1) pow2_pos [of k] have nz: "x \<noteq> 0" by auto
  from floor_log2_eq [OF assms(1,2)] assms(3) have "quantum x = k - 52"
    by (simp add: quantum_def)
  with nz show ?thesis by (simp add: round64_def)
qed

lemma round64_rel:
  assumes lo: "pow2 (- 1022) \<le> \<bar>x\<bar>" and hi: "\<bar>x\<bar> \<le> pow2 1023"
  shows "\<exists>r. round64 x = Finite r \<and> \<bar>r - x\<bar> \<le> \<bar>x\<bar> * pow2 (- 53)"
proof -
  from lo pow2_pos [of "- 1022"] have pos: "0 < \<bar>x\<bar>" by linarith
  then have nz: "x \<noteq> 0" by auto
  define L where "L = \<lfloor>log 2 \<bar>x\<bar>\<rfloor>"
  have Lle: "pow2 L \<le> \<bar>x\<bar>" unfolding L_def by (rule floor_log2_le [OF pos])
  have Lgt: "\<bar>x\<bar> < pow2 (L + 1)" unfolding L_def by (rule floor_log2_less [OF pos])
  from lo Lgt have "pow2 (- 1022) < pow2 (L + 1)" by linarith
  then have Lge: "- 1022 \<le> L" by (simp add: pow2_less_iff)
  define q where "q = L - 52"
  have qu: "quantum x = q" using Lge by (simp add: quantum_def L_def q_def)
  define r where "r = of_int (roundEven (x / pow2 q)) * pow2 q"
  have "r - x = (of_int (roundEven (x / pow2 q)) - x / pow2 q) * pow2 q"
    using pow2_pos [of q] by (simp add: r_def field_simps)
  then have "\<bar>r - x\<bar> = \<bar>of_int (roundEven (x / pow2 q)) - x / pow2 q\<bar> * pow2 q"
    using pow2_pos [of q] by (simp add: abs_mult)
  also have "\<dots> \<le> (1 / 2) * pow2 q"
    using roundEven_err [of "x / pow2 q"] pow2_pos [of q] by (intro mult_right_mono) simp_all
  also have "\<dots> = pow2 (q - 1)" using pow2_half [of q] by simp
  also have "\<dots> = pow2 L * pow2 (- 53)" using pow2_add [of L "- 53"] by (simp add: q_def)
  also have "\<dots> \<le> \<bar>x\<bar> * pow2 (- 53)"
    using Lle pow2_pos [of "- 53"] by (intro mult_right_mono) simp_all
  finally have err: "\<bar>r - x\<bar> \<le> \<bar>x\<bar> * pow2 (- 53)" .
  have "pow2 (- 53) \<le> 1 / 2" by (simp add: pow2_def)
  with err pos have "\<bar>r - x\<bar> \<le> \<bar>x\<bar> * (1 / 2)"
    by (meson mult_left_mono order_trans less_imp_le)
  then have "\<bar>r\<bar> \<le> \<bar>x\<bar> + \<bar>x\<bar> * (1 / 2)" by linarith
  also have "\<dots> < 2 * pow2 1023" using hi pos by linarith
  also have "\<dots> = pow2 1024" using pow2_add [of 1 1023] by (simp add: pow2_def)
  finally have "\<not> pow2 1024 \<le> \<bar>r\<bar>" by simp
  with nz qu err show ?thesis by (simp add: round64_def r_def)
qed

lemma round64_exact:
  assumes x: "x = of_int m * pow2 e" and m: "\<bar>m\<bar> < 2 ^ 53" and e: "- 1074 \<le> e" "e \<le> 971"
  shows "round64 x = Finite x"
proof (cases "m = 0")
  case True
  with x show ?thesis by (simp add: round64_def)
next
  case False
  with x pow2_pos [of e] have nz: "x \<noteq> 0" by simp
  then have pos: "0 < \<bar>x\<bar>" by simp
  have ax: "\<bar>x\<bar> = of_int \<bar>m\<bar> * pow2 e" using x pow2_pos [of e] by (simp add: abs_mult)
  from m have "real_of_int \<bar>m\<bar> < 2 ^ 53" by (metis of_int_less_numeral_power_cancel_iff)
  then have "\<bar>x\<bar> < 2 ^ 53 * pow2 e" using ax pow2_pos [of e] by simp
  also have "\<dots> = pow2 (e + 53)" using pow2_add [of 53 e] pow2_nat [of 53] by (simp add: add.commute)
  finally have xlt: "\<bar>x\<bar> < pow2 (e + 53)" .
  define L where "L = \<lfloor>log 2 \<bar>x\<bar>\<rfloor>"
  have "pow2 L \<le> \<bar>x\<bar>" unfolding L_def by (rule floor_log2_le [OF pos])
  with xlt have "pow2 L < pow2 (e + 53)" by linarith
  then have "L < e + 53" by (simp add: pow2_less_iff)
  define q where "q = quantum x"
  from \<open>L < e + 53\<close> e have qle: "q \<le> e" by (simp add: q_def quantum_def L_def)
  define n where "n = nat (e - q)"
  have "pow2 e = pow2 (int n) * pow2 q"
    using qle pow2_add [of "int n" q] by (simp add: n_def)
  then have pe: "pow2 e = 2 ^ n * pow2 q" by (simp add: pow2_nat)
  have xq: "x = of_int (m * 2 ^ n) * pow2 q" using x pe by simp
  have "x / pow2 q = of_int (m * 2 ^ n) * pow2 q / pow2 q" by (subst xq) simp
  also have "\<dots> = of_int (m * 2 ^ n)" using pow2_pos [of q] by simp
  finally have "roundEven (x / pow2 q) = m * 2 ^ n" by (simp only: roundEven_int)
  then have r: "of_int (roundEven (x / pow2 q)) * pow2 q = x" using xq by simp
  have "\<bar>x\<bar> < pow2 1024"
  proof -
    from e have "pow2 (e + 53) \<le> pow2 1024" by (simp add: pow2_le_iff)
    with xlt show ?thesis by linarith
  qed
  with r nz show ?thesis by (simp add: round64_def q_def [symmetric])
qed

lemma round64_of_int: "\<bar>m\<bar> < 2 ^ 53 \<Longrightarrow> round64 (of_int m) = Finite (of_int m)"
  using round64_exact [of "of_int m" m 0] by (simp add: pow2_0)

lemma close_trans:
  assumes "close e1 a b" and "close e2 r a" and "0 \<le> e2"
  shows "close (e1 + e2 + e1 * e2) r b"
proof -
  from assms(1) have ab: "\<bar>a - b\<bar> \<le> e1 * \<bar>b\<bar>" by (simp add: close_def)
  from assms(2) have ra: "\<bar>r - a\<bar> \<le> e2 * \<bar>a\<bar>" by (simp add: close_def)
  from ab have "\<bar>a\<bar> \<le> \<bar>b\<bar> + e1 * \<bar>b\<bar>" by linarith
  then have "e2 * \<bar>a\<bar> \<le> e2 * (\<bar>b\<bar> + e1 * \<bar>b\<bar>)" using assms(3) by (rule mult_left_mono)
  with ra have "\<bar>r - a\<bar> \<le> e2 * \<bar>b\<bar> + e1 * e2 * \<bar>b\<bar>" by (simp add: algebra_simps)
  with ab have "\<bar>r - b\<bar> \<le> e1 * \<bar>b\<bar> + e2 * \<bar>b\<bar> + e1 * e2 * \<bar>b\<bar>" by linarith
  then show ?thesis by (simp add: close_def algebra_simps)
qed

lemma close_times: "close e a b \<Longrightarrow> close e (a * k) (b * k)"
proof -
  assume "close e a b"
  then have "\<bar>a - b\<bar> * \<bar>k\<bar> \<le> e * \<bar>b\<bar> * \<bar>k\<bar>"
    by (simp add: close_def mult_right_mono)
  moreover have "\<bar>a * k - b * k\<bar> = \<bar>a - b\<bar> * \<bar>k\<bar>"
    by (simp add: abs_mult [symmetric] algebra_simps)
  ultimately show ?thesis by (simp add: close_def abs_mult algebra_simps)
qed

lemma close_div:
  assumes ac: "close e1 a c" and bt: "close e2 b t" and t: "0 < t" and e2: "0 \<le> e2" "e2 < 1"
    and e1: "0 \<le> e1"
  shows "0 < b \<and> close ((e1 + e2) / (1 - e2)) (a / b) (c / t)"
proof -
  from ac have 1: "\<bar>a - c\<bar> \<le> e1 * \<bar>c\<bar>" by (simp add: close_def)
  from bt t have 2: "\<bar>b - t\<bar> \<le> e2 * t" by (simp add: close_def)
  then have "t - e2 * t \<le> b" by linarith
  then have blo: "(1 - e2) * t \<le> b" by (simp add: algebra_simps)
  from e2 t have "0 < (1 - e2) * t" by simp
  with blo have bpos: "0 < b" by linarith
  have "a / b - c / t = ((a - c) * t - c * (b - t)) / (b * t)"
    using bpos t by (simp add: field_simps)
  then have "\<bar>a / b - c / t\<bar> = \<bar>(a - c) * t - c * (b - t)\<bar> / (b * t)"
    using bpos t by (simp add: abs_mult)
  also have "\<bar>(a - c) * t - c * (b - t)\<bar> \<le> \<bar>a - c\<bar> * t + \<bar>c\<bar> * \<bar>b - t\<bar>"
  proof -
    have "\<bar>(a - c) * t - c * (b - t)\<bar> \<le> \<bar>(a - c) * t\<bar> + \<bar>c * (b - t)\<bar>" by (rule abs_triangle_ineq4)
    then show ?thesis using t by (simp add: abs_mult)
  qed
  also have "\<dots> \<le> e1 * \<bar>c\<bar> * t + \<bar>c\<bar> * (e2 * t)"
    using 1 2 t by (intro add_mono mult_right_mono mult_left_mono) simp_all
  also have "\<dots> = (e1 + e2) * \<bar>c\<bar> * t" by (simp add: algebra_simps)
  finally have 3: "\<bar>a / b - c / t\<bar> \<le> (e1 + e2) * \<bar>c\<bar> * t / (b * t)"
    using bpos t by (simp add: divide_right_mono)
  have "(e1 + e2) * \<bar>c\<bar> * t / (b * t) = (e1 + e2) * \<bar>c\<bar> / b" using t by simp
  also have "\<dots> \<le> (e1 + e2) * \<bar>c\<bar> / ((1 - e2) * t)"
    using blo \<open>0 < (1 - e2) * t\<close> e1 e2 by (intro divide_left_mono) (simp_all add: bpos)
  also have "\<dots> = (e1 + e2) / (1 - e2) * \<bar>c / t\<bar>" using t by simp
  finally have "(e1 + e2) * \<bar>c\<bar> * t / (b * t) \<le> (e1 + e2) / (1 - e2) * \<bar>c / t\<bar>" .
  with 3 bpos show ?thesis by (simp add: close_def)
qed

lemma close_range:
  assumes "close e a b" and "0 \<le> e" "e \<le> 1 / 2" and "lo \<le> \<bar>b\<bar>" "\<bar>b\<bar> \<le> hi"
  shows "lo / 2 \<le> \<bar>a\<bar> \<and> \<bar>a\<bar> \<le> 2 * hi"
proof -
  from assms(1) have "\<bar>a - b\<bar> \<le> e * \<bar>b\<bar>" by (simp add: close_def)
  moreover from assms(3) have "e * \<bar>b\<bar> \<le> (1 / 2) * \<bar>b\<bar>" by (intro mult_right_mono) simp_all
  ultimately have "\<bar>a - b\<bar> \<le> \<bar>b\<bar> / 2" by simp
  with assms(4,5) show ?thesis by linarith
qed

lemma round64_close:
  assumes "pow2 (- 1022) \<le> \<bar>x\<bar>" and "\<bar>x\<bar> \<le> pow2 1023"
  shows "\<exists>r. round64 x = Finite r \<and> close (pow2 (- 53)) r x"
  using round64_rel [OF assms] by (auto simp: close_def mult.commute)

lemma float64_of_int_close:
  assumes "n \<noteq> 0" and "\<bar>n\<bar> \<le> 2 ^ 63"
  shows "\<exists>r. float64_of_int n = Finite r \<and> close (pow2 (- 53)) r (of_int n)"
proof -
  from assms(1) have "1 \<le> \<bar>n\<bar>" by simp
  then have "1 \<le> \<bar>real_of_int n\<bar>" by (metis of_int_1_le_iff of_int_abs)
  moreover have "pow2 (- 1022) \<le> 1" using pow2_le_iff [of "- 1022" 0] by (simp add: pow2_0)
  ultimately have lo: "pow2 (- 1022) \<le> \<bar>real_of_int n\<bar>" by linarith
  from assms(2) have "\<bar>real_of_int n\<bar> \<le> 2 ^ 63"
    by (metis of_int_abs of_int_le_numeral_power_cancel_iff)
  moreover have "(2::real) ^ 63 \<le> pow2 1023"
    using pow2_le_iff [of 63 1023] pow2_nat [of 63] by simp
  ultimately have hi: "\<bar>real_of_int n\<bar> \<le> pow2 1023" by linarith
  from round64_close [OF lo hi] show ?thesis by (simp add: float64_of_int_def)
qed

lemma float64_of_int_0: "float64_of_int 0 = Finite 0"
  by (simp add: float64_of_int_def round64_def)

lemma eps_bounds:
  "(0::real) \<le> pow2 (- 53)" "pow2 (- 53) < 1"
  "(pow2 (- 53) + pow2 (- 53)) / (1 - pow2 (- 53)) \<le> 3 * pow2 (- 53)"
  "3 * pow2 (- 53) + pow2 (- 53) + 3 * pow2 (- 53) * pow2 (- 53) \<le> 5 * pow2 (- 53)"
  "5 * pow2 (- 53) + pow2 (- 53) + 5 * pow2 (- 53) * pow2 (- 53) \<le> pow2 (- 50)"
  "5 * pow2 (- 53) \<le> 1 / 2" "3 * pow2 (- 53) \<le> 1 / 2"
  by (simp_all add: pow2_def field_simps)

lemma close_mono: "close e a b \<Longrightarrow> e \<le> e' \<Longrightarrow> close e' a b"
proof -
  assume "close e a b" and "e \<le> e'"
  then have "\<bar>a - b\<bar> \<le> e * \<bar>b\<bar>" and "e * \<bar>b\<bar> \<le> e' * \<bar>b\<bar>"
    by (simp_all add: close_def mult_right_mono)
  then show ?thesis by (simp add: close_def)
qed

lemma rate_close:
  assumes t: "0 < t" "t \<le> 2 ^ 63" and c: "\<bar>c\<bar> \<le> 2 ^ 63"
  shows "\<exists>r. fmul (fdiv (float64_of_int c) (float64_of_int t)) (Finite 100) = Finite r
            \<and> \<bar>r - 100 * of_int c / of_int t\<bar> \<le> \<bar>100 * of_int c / of_int t\<bar> * pow2 (- 50)"
proof -
  let ?u = "pow2 (- 53)"
  from t have tn: "t \<noteq> 0" "\<bar>t\<bar> \<le> 2 ^ 63" by simp_all
  from float64_of_int_close [OF tn] obtain t' where
    ft: "float64_of_int t = Finite t'" and ct: "close ?u t' (of_int t)" by blast
  have tpos: "0 < real_of_int t" using t by simp
  show ?thesis
  proof (cases "c = 0")
    case True
    from close_div [OF _ ct tpos eps_bounds(1,2) eps_bounds(1), of 0 0] have "0 < t'"
      by (simp add: close_def)
    with True ft show ?thesis
      by (simp add: float64_of_int_0 round64_def)
  next
    case False
    from float64_of_int_close [OF False c] obtain c' where
      fc: "float64_of_int c = Finite c'" and cc: "close ?u c' (of_int c)" by blast
    let ?x = "real_of_int c / real_of_int t"
    from close_div [OF cc ct tpos eps_bounds(1,2) eps_bounds(1)]
    have t'pos: "0 < t'" and cd0: "close ((?u + ?u) / (1 - ?u)) (c' / t') ?x" by simp_all
    from cd0 eps_bounds(3) have cd: "close (3 * ?u) (c' / t') ?x" by (rule close_mono)
    have xlo: "1 / 2 ^ 63 \<le> \<bar>?x\<bar>"
    proof -
      from False have "1 \<le> \<bar>c\<bar>" by simp
      then have "1 \<le> \<bar>real_of_int c\<bar>" by (metis of_int_1_le_iff of_int_abs)
      moreover from t have "real_of_int t \<le> 2 ^ 63"
        by (metis of_int_le_numeral_power_cancel_iff)
      ultimately have "1 / 2 ^ 63 \<le> \<bar>real_of_int c\<bar> / real_of_int t"
        using tpos by (intro frac_le) simp_all
      then show ?thesis using tpos by simp
    qed
    have xhi: "\<bar>?x\<bar> \<le> 2 ^ 63"
    proof -
      from c have "\<bar>real_of_int c\<bar> \<le> 2 ^ 63"
        by (metis of_int_abs of_int_le_numeral_power_cancel_iff)
      moreover from t have "1 \<le> real_of_int t" by simp
      ultimately have "\<bar>real_of_int c\<bar> / real_of_int t \<le> 2 ^ 63 / 1"
        by (intro frac_le) simp_all
      then show ?thesis using tpos by simp
    qed
    from close_range [OF cd _ eps_bounds(7) xlo xhi]
    have q0: "1 / 2 ^ 63 / 2 \<le> \<bar>c' / t'\<bar>" "\<bar>c' / t'\<bar> \<le> 2 * 2 ^ 63"
      using eps_bounds(1) by simp_all
    have "pow2 (- 1022) \<le> pow2 (- 64)" by (simp add: pow2_le_iff)
    also have "pow2 (- 64) = 1 / 2 ^ 63 / 2" by (simp add: pow2_def)
    finally have q0lo: "pow2 (- 1022) \<le> \<bar>c' / t'\<bar>" using q0(1) by linarith
    have "2 * 2 ^ 63 = pow2 64" by (simp add: pow2_def)
    also have "\<dots> \<le> pow2 1023" by (simp add: pow2_le_iff)
    finally have q0hi: "\<bar>c' / t'\<bar> \<le> pow2 1023" using q0(2) by linarith
    from round64_close [OF q0lo q0hi] obtain q where
      fq: "round64 (c' / t') = Finite q" and cq0: "close ?u q (c' / t')" by blast
    from close_trans [OF cd cq0 eps_bounds(1)] eps_bounds(4)
    have cq: "close (5 * ?u) q ?x" by (rule close_mono)
    from cq have cp: "close (5 * ?u) (q * 100) (?x * 100)" by (rule close_times)
    have ax: "\<bar>?x * 100\<bar> = \<bar>?x\<bar> * 100" by (simp add: abs_mult)
    from xlo have "1 / 2 ^ 63 * 100 \<le> \<bar>?x\<bar> * 100" by (rule mult_right_mono) simp
    then have plo: "100 / 2 ^ 63 \<le> \<bar>?x * 100\<bar>" unfolding ax by simp
    from xhi have "\<bar>?x\<bar> * 100 \<le> 2 ^ 63 * 100" by (rule mult_right_mono) simp
    then have phi: "\<bar>?x * 100\<bar> \<le> 100 * 2 ^ 63" unfolding ax by simp
    from close_range [OF cp _ eps_bounds(6) plo phi]
    have p0: "100 / 2 ^ 63 / 2 \<le> \<bar>q * 100\<bar>" "\<bar>q * 100\<bar> \<le> 2 * (100 * 2 ^ 63)"
      using eps_bounds(1) by simp_all
    have "pow2 (- 1022) \<le> pow2 (- 64)" by (simp add: pow2_le_iff)
    also have "pow2 (- 64) \<le> 100 / 2 ^ 63 / 2" by (simp add: pow2_def)
    finally have p0lo: "pow2 (- 1022) \<le> \<bar>q * 100\<bar>" using p0(1) by linarith
    have "2 * (100 * 2 ^ 63) \<le> pow2 71" by (simp add: pow2_def)
    also have "\<dots> \<le> pow2 1023" by (simp add: pow2_le_iff)
    finally have p0hi: "\<bar>q * 100\<bar> \<le> pow2 1023" using p0(2) by linarith
    from round64_close [OF p0lo p0hi] obtain r where
      fr: "round64 (q * 100) = Finite r" and cr0: "close ?u r (q * 100)" by blast
    from close_trans [OF cp cr0 eps_bounds(1)] eps_bounds(5)
    have cr: "close (pow2 (- 50)) r (?x * 100)" by (rule close_mono)
    have "fmul (fdiv (float64_of_int c) (float64_of_int t)) (Finite 100) = Finite r"
      using fc ft t'pos fq fr by simp
    moreover have "?x * 100 = 100 * of_int c / of_int t" by simp
    ultimately show ?thesis using cr by (simp add: close_def mult.commute)
  qed
qed

lemma float64_of_int_exact: "\<bar>m\<bar> < 2 ^ 53 \<Longrightarrow> float64_of_int m = Finite (of_int m)"
  by (simp add: float64_of_int_def round64_of_int)

lemma round64_two_thirds: "round64 (2 / 3) = Finite (6004799503160661 / 2 ^ 53)"
  using round64_at [of "- 1" "2 / 3"] by (simp add: pow2_def roundEven_def)

lemma round64_two_thirds_100:
  "round64 (6004799503160661 / 2 ^ 53 * 100) = Finite (4691249611844266 / 2 ^ 46)"
proof -
  let ?x = "6004799503160661 / 2 ^ 53 * 100 :: real"
  have a: "pow2 6 \<le> \<bar>?x\<bar>" by (simp add: pow2_def)
  have b: "\<bar>?x\<bar> < pow2 (6 + 1)" by (simp add: pow2_def)
  have f: "\<lfloor>?x / pow2 (6 - 52)\<rfloor> = 4691249611844266" by (simp add: pow2_def)
  have r: "roundEven (?x / pow2 (6 - 52)) = 4691249611844266"
    unfolding roundEven_def Let_def f by (simp add: pow2_def)
  have "round64 ?x = Finite (of_int 4691249611844266 * pow2 (6 - 52))"
    using round64_at [OF a b] unfolding Let_def r by (simp add: pow2_def)
  then show ?thesis by (simp add: pow2_def)
qed

lemma round64_200_3: "round64 (200 / 3) = Finite (4691249611844267 / 2 ^ 46)"
  using round64_at [of 6 "200 / 3"] by (simp add: pow2_def roundEven_def)

lemma rate_2_of_3:
  "fmul (fdiv (float64_of_int 2) (float64_of_int 3)) (Finite 100) = Finite (4691249611844266 / 2 ^ 46)"
proof -
  have "fdiv (float64_of_int 2) (float64_of_int 3) = Finite (6004799503160661 / 2 ^ 53)"
    by (simp add: float64_of_int_exact round64_two_thirds)
  then have "fmul (fdiv (float64_of_int 2) (float64_of_int 3)) (Finite 100)
      = round64 (6004799503160661 / 2 ^ 53 * 100)"
    by (simp only: fmul.simps)
  then show ?thesis by (simp only: round64_two_thirds_100)
qed

lemma round64_0: "round64 0 = Finite 0"
  by (simp add: round64_def)

lemma round64_1: "round64 1 = Finite 1"
  using round64_of_int [of 1] by simp

lemma round64_numeral: "(numeral n :: int) < 2 ^ 53 \<Longrightarrow> round64 (numeral n) = Finite (numeral n)"
  using round64_of_int [of "numeral n"] by simp

lemma round64_half: "round64 (1 / 2) = Finite (1 / 2)"
  using round64_exact [of "1 / 2" 1 "- 1"] by (simp add: pow2_def)

lemmas floatEval = float64_of_int_exact round64_0 round64_1 round64_numeral round64_half

section \<open>Evaluation of the parser on given input\<close>

lemmas recordTypes =
  RecordTestName_def RecordSourceFile_def RecordLineData_def RecordLinesFound_def
  RecordLinesHit_def RecordEndOfRecord_def RecordFunctionName_def RecordFunctionData_def
  RecordBranchData_def RecordBranchFound_def RecordBranchHit_def

lemmas scanEval =
  NewParser_def NewScanner_def NewReader_def rawLines_def dropCR_def MaxScanTokenSize_def

lemmas trimEval =
  TrimSpace_def TrimLeft.simps TrimRight.simps spacePrefix_def spaceSuffix_def
  asciiSpace_def unicodeSpaces_def

lemmas atoiEval = Atoi_def isDigit_def digitVal_def

lemmas valueEval =
  parseRecord_def SplitN2_def parseLineData_def parseFunctionName_def parseBranchData_def
  functionDataHit_def isValidLineData_def isValidFunctionName_def isValidBranchData_def
  Split.simps atoiEval calcRates_def recordTypes word_sless_alt

lemmas parseEval =
  Summarize_def Parse_def step_def handleRecord_def initState_def closeFile_def
  newFileRecord_def emptySummary_def

lemmas countersEval =
  SummarizeCounters_def ParseCounters_def stepCounters_def handleRecordCounters_def
  initCounters_def addCounters_def emptyCounters_def

lemmas inputEval = scanEval trimEval valueEval

section \<open>One turn of the loop\<close>

lemma step_recordAt: "recordAt t = Some r \<Longrightarrow> step st t = handleRecord st r"
  by (simp add: recordAt_def step_def Let_def split: if_splits sum.splits)

lemma stepCounters_recordAt: "recordAt t = Some r \<Longrightarrow> stepCounters st t = handleRecordCounters st r"
  by (simp add: recordAt_def stepCounters_def Let_def split: if_splits sum.splits)

lemma step_no_record:
  "recordAt t = None \<Longrightarrow> step st t = Inr st \<or> (\<exists>e. step st t = Inl (parseFailure (TrimSpace t) e))"
  by (auto simp: recordAt_def step_def Let_def split: if_splits sum.splits)

lemma stepCounters_no_record:
  "recordAt t = None \<Longrightarrow>
   (step st t = Inr st \<and> stepCounters ct t = Inr ct)
   \<or> (\<exists>e. step st t = Inl e \<and> stepCounters ct t = Inl e)"
  by (auto simp: recordAt_def step_def stepCounters_def Let_def split: if_splits sum.splits)

lemma handleRecord_summary:
  "handleRecord st r = Inr st' \<Longrightarrow>
   (summary st' = summary st \<and> (Type r = RecordEndOfRecord \<longrightarrow> currentFile st = None \<and> currentFile st' = None))
   \<or> (\<exists>f. Type r = RecordEndOfRecord \<and> currentFile st = Some f
          \<and> summary st' = closeFile (summary st) f \<and> currentFile st' = None)"
  by (auto simp: handleRecord_def recordTypes split: if_splits option.splits sum.splits)

lemma run_append:
  "run st (xs @ ys) = (case run st xs of Inl e \<Rightarrow> Inl e | Inr st' \<Rightarrow> run st' ys)"
  by (induction xs arbitrary: st) (auto split: sum.splits)

lemma step_summary:
  "step st t = Inr st' \<Longrightarrow>
   summary st' = summary st
   \<or> (\<exists>f. isEndOfRecord t \<and> currentFile st = Some f
          \<and> summary st' = closeFile (summary st) f \<and> currentFile st' = None)"
proof (cases "recordAt t")
  case None
  assume "step st t = Inr st'"
  with step_no_record [OF None, of st] show ?thesis by auto
next
  case (Some r)
  assume "step st t = Inr st'"
  then have "handleRecord st r = Inr st'" by (simp add: step_recordAt [OF Some])
  from handleRecord_summary [OF this] show ?thesis
    by (auto simp: isEndOfRecord_def Some)
qed

section \<open>A read error of the input stream\<close>

text \<open>
  Claim C3. The claim: when the input stream fails with a read error, \<open>Parse\<close> (and
  \<open>Summarize\<close>) returns the error and no summary. The code returns the error together
  with the summary built up to there: on a reader that fails at once (the
  \<open>failingReader\<close> of the tests) both parsers return the empty summary and the error,
  and on a reader that fails after one whole file block the extended parser returns a
  summary with that block counted, and the error.
\<close>

theorem C3_read_error_returns_summary:
  "Summarize \<lparr>data = [], readErr = Some ''simulated read error''\<rparr>
     = (Some emptySummary, Some ''simulated read error'')
   \<and> SummarizeCounters \<lparr>data = [], readErr = Some ''simulated read error''\<rparr>
     = (Some emptyCounters, Some ''simulated read error'')
   \<and> Summarize \<lparr>data = ''SF:a\<newline>LF:3\<newline>end_of_record\<newline>'',
                 readErr = Some ''simulated read error''\<rparr>
     = (Some (emptySummary\<lparr>TotalFiles := 1, TotalLines := 3,
               Files := [(newFileRecord [])\<lparr>SourceFile := ''a'', LinesFound := 3\<rparr>]\<rparr>),
        Some ''simulated read error'')"
  by (simp add: inputEval parseEval countersEval floatEval)

section \<open>A function-name record with an empty value\<close>

text \<open>
  Claim C6. The claim: on the input \<open>FN:\<close>, \<open>end_of_record\<close> the error mentions the
  raw line together with "invalid record format" or "invalid function name format". The
  tests of the repository ask for the same: the error is to contain "failed to parse
  line 'FN:': invalid record format: FN:", and the tokenizer is to reject a tag with
  nothing after the colon, such as \<open>SF:\<close>. The code does neither. The tokenizer
  accepts \<open>FN:\<close> and \<open>SF:\<close> as records with the empty value, and since no file block
  is open both parsers fail with the sequencing error "function name without source
  file", which contains neither the raw line nor one of the two messages.
\<close>

theorem C6_function_name_error:
  "Summarize (NewReader ''FN:\<newline>end_of_record'')
     = (None, Some ''function name without source file'')
   \<and> SummarizeCounters (NewReader ''FN:\<newline>end_of_record'')
     = (None, Some ''function name without source file'')
   \<and> \<not> Contains ''function name without source file'' ''FN:''
   \<and> \<not> Contains ''function name without source file'' ''invalid record format''
   \<and> \<not> Contains ''function name without source file'' ''invalid function name format''
   \<and> \<not> Contains ''function name without source file'' ''failed to parse line''
   \<and> parseRecord ''FN:'' = Inr \<lparr>Type = ''FN'', Value = []\<rparr>
   \<and> parseRecord ''SF:'' = Inr \<lparr>Type = ''SF'', Value = []\<rparr>"
  by (simp add: inputEval parseEval countersEval)

section \<open>The coverage rates\<close>

lemma closeFile_ratesUnset: "ratesUnset s \<Longrightarrow> ratesUnset (closeFile s f)"
  by (simp add: ratesUnset_def closeFile_def)

lemma step_ratesUnset:
  "step st t = Inr st' \<Longrightarrow> ratesUnset (summary st) \<Longrightarrow> ratesUnset (summary st')"
  using step_summary [of st t st'] by (auto simp: closeFile_ratesUnset)

lemma run_ratesUnset:
  "run st ts = Inr st' \<Longrightarrow> ratesUnset (summary st) \<Longrightarrow> ratesUnset (summary st')"
proof (induction ts arbitrary: st)
  case Nil
  then show ?case by simp
next
  case (Cons t ts)
  then show ?case by (auto split: sum.splits dest: step_ratesUnset)
qed

lemma calcRates_totals:
  "TotalFiles (calcRates s) = TotalFiles s"
  "TotalLines (calcRates s) = TotalLines s" "CoveredLines (calcRates s) = CoveredLines s"
  "TotalFunctions (calcRates s) = TotalFunctions s"
  "CoveredFunctions (calcRates s) = CoveredFunctions s"
  "TotalBranches (calcRates s) = TotalBranches s"
  "CoveredBranches (calcRates s) = CoveredBranches s"
  by (simp_all add: calcRates_def Let_def)

lemma calcRates_Files: "Files (calcRates s) = Files s"
  by (simp add: calcRates_def Let_def)

lemma calcRates_rates:
  assumes "ratesUnset s"
  shows "LineCoverageRate (calcRates s) =
           (if 0 <s TotalLines s
            then fmul (fdiv (float64_of_int (sint (CoveredLines s)))
                            (float64_of_int (sint (TotalLines s)))) (Finite 100)
            else Finite 0)"
    and "FunctionCoverageRate (calcRates s) =
           (if 0 <s TotalFunctions s
            then fmul (fdiv (float64_of_int (sint (CoveredFunctions s)))
                            (float64_of_int (sint (TotalFunctions s)))) (Finite 100)
            else Finite 0)"
    and "BranchCoverageRate (calcRates s) =
           (if 0 <s TotalBranches s
            then fmul (fdiv (float64_of_int (sint (CoveredBranches s)))
                            (float64_of_int (sint (TotalBranches s)))) (Finite 100)
            else Finite 0)"
  using assms by (simp_all add: calcRates_def Let_def ratesUnset_def)

lemma sint_goint_bound: "\<bar>sint (w::goint)\<bar> \<le> 2 ^ 63"
  using sint_ge [of w] sint_lt [of w] by simp

lemma coverageRate_computed:
  "coverageRate
     (if 0 <s t
      then fmul (fdiv (float64_of_int (sint c)) (float64_of_int (sint t))) (Finite 100)
      else Finite 0) c t"
proof (cases "0 <s t")
  case True
  then have tp: "0 < sint t" by (simp add: word_sless_alt)
  have tb: "sint t \<le> 2 ^ 63" using sint_goint_bound [of t] by simp
  from rate_close [OF tp tb sint_goint_bound [of c]] obtain r where
    r: "fmul (fdiv (float64_of_int (sint c)) (float64_of_int (sint t))) (Finite 100)
          = Finite r"
    and b: "\<bar>r - 100 * real_of_int (sint c) / real_of_int (sint t)\<bar>
              \<le> \<bar>100 * real_of_int (sint c) / real_of_int (sint t)\<bar> * pow2 (- 50)"
    by blast
  from b have "close (pow2 (- 50)) r (100 * real_of_int (sint c) / real_of_int (sint t))"
    by (simp add: close_def mult.commute)
  with True r show ?thesis by (simp add: coverageRate_def)
next
  case False
  then show ?thesis by (simp add: coverageRate_def)
qed

lemma Parse_Some:
  "Parse p = (Some s, e) \<Longrightarrow>
   \<exists>st. run initState (tokens (scanner p)) = Inr st \<and> s = calcRates (summary st)
        \<and> e = scanErr (scanner p)"
  by (auto simp: Parse_def split: sum.splits)

lemma scenarioA_result:
  "Summarize (NewReader scenarioA)
   = (Some \<lparr>TotalFiles = 2, TotalLines = 3, CoveredLines = 2,
            LineCoverageRate = Finite (4691249611844266 / 2 ^ 46),
            TotalFunctions = 0, CoveredFunctions = 0, FunctionCoverageRate = Finite 0,
            TotalBranches = 0, CoveredBranches = 0, BranchCoverageRate = Finite 0,
            Files = [\<lparr>TestName = [], SourceFile = ''/a.go'',
                       Lines = [\<lparr>LineNumber = 1, ExecutionCount = 1\<rparr>,
                                \<lparr>LineNumber = 2, ExecutionCount = 0\<rparr>],
                       LinesFound = 2, LinesHit = 1, Functions = [], FunctionsHit = 0,
                       Branches = [], BranchesFound = 0, BranchesHit = 0\<rparr>,
                     \<lparr>TestName = [], SourceFile = ''/b.go'',
                       Lines = [\<lparr>LineNumber = 1, ExecutionCount = 1\<rparr>],
                       LinesFound = 1, LinesHit = 1, Functions = [], FunctionsHit = 0,
                       Branches = [], BranchesFound = 0, BranchesHit = 0\<rparr>]\<rparr>,
      None)"
  by (simp add: scenarioA_def inputEval parseEval rate_2_of_3)

text \<open>
  Claim C1, as stated: each rate equals \<open>100 * covered / total\<close> when the total is above
  0. The code computes \<open>float64(covered) / float64(total) * 100\<close>, with a rounding after
  the division and another after the multiplication. On the input of scenario A, with 2
  of 3 lines covered, the line rate is \<open>4691249611844266 / 2 ^ 46\<close>
  (66.66666666666666): it is not the number \<open>100 * 2 / 3\<close>, not that number rounded to
  \<open>float64\<close>, and not \<open>100 * 2 / 3\<close> computed in \<open>float64\<close> in the order the claim
  writes it (both are \<open>4691249611844267 / 2 ^ 46\<close>, 66.66666666666667).
\<close>

theorem C1_counterexample:
  "\<exists>s. Summarize (NewReader scenarioA) = (Some s, None)
       \<and> TotalLines s = 3 \<and> CoveredLines s = 2
       \<and> LineCoverageRate s = Finite (4691249611844266 / 2 ^ 46)
       \<and> LineCoverageRate s \<noteq> Finite (100 * 2 / 3)
       \<and> LineCoverageRate s \<noteq> round64 (100 * 2 / 3)
       \<and> LineCoverageRate s \<noteq> fdiv (fmul (Finite 100) (float64_of_int 2)) (float64_of_int 3)"
proof -
  have "fmul (Finite 100) (float64_of_int 2) = Finite 200"
    by (simp add: floatEval)
  then have "fdiv (fmul (Finite 100) (float64_of_int 2)) (float64_of_int 3) = round64 (100 * 2 / 3)"
    by (simp add: floatEval)
  then show ?thesis
    by (simp add: scenarioA_result round64_200_3 del: round64_numeral)
qed

text \<open>
  Claim C1, amended. Whenever \<open>Parse\<close> (and so \<open>Summarize\<close>) returns a summary, with or
  without an error beside it, each of the three rates is, when its total is above 0, the
  \<open>float64\<close> value of \<open>float64(covered) / float64(total) * 100\<close>, which is a finite number
  within the relative error \<open>pow2 (- 50)\<close> of \<open>100 * covered / total\<close>; and it is 0
  otherwise (so 0 when the total is 0, with no division by zero, which in \<open>float64\<close>
  would give a NaN; a total below 0, which a negative \<open>LF\<close> value gives, leaves the rate
  0 as well).
\<close>

theorem C1_coverage_rates:
  assumes "Parse p = (Some s, e)"
  shows "coverageRate (LineCoverageRate s) (CoveredLines s) (TotalLines s)
       \<and> coverageRate (FunctionCoverageRate s) (CoveredFunctions s) (TotalFunctions s)
       \<and> coverageRate (BranchCoverageRate s) (CoveredBranches s) (TotalBranches s)"
proof -
  from Parse_Some [OF assms] obtain st where
    r: "run initState (tokens (scanner p)) = Inr st" and s: "s = calcRates (summary st)"
    by blast
  have "ratesUnset (summary initState)"
    by (simp add: ratesUnset_def initState_def emptySummary_def)
  with r have u: "ratesUnset (summary st)" by (rule run_ratesUnset)
  show ?thesis
    unfolding s calcRates_totals calcRates_rates [OF u]
    by (intro conjI coverageRate_computed)
qed

theorem C1_coverage_rates_witness:
  "\<exists>s. Parse (NewParser (NewReader scenarioA)) = (Some s, None)
       \<and> TotalLines s = 3 \<and> CoveredLines s = 2 \<and> TotalBranches s = 0 \<and> CoveredBranches s = 0
       \<and> LineCoverageRate s = Finite (4691249611844266 / 2 ^ 46)
       \<and> BranchCoverageRate s = Finite 0
       \<and> coverageRate (LineCoverageRate s) 2 3
       \<and> coverageRate (BranchCoverageRate s) 0 0"
proof -
  from scenarioA_result obtain s where
    p: "Parse (NewParser (NewReader scenarioA)) = (Some s, None)"
    and t: "TotalLines s = 3" "CoveredLines s = 2" "TotalBranches s = 0" "CoveredBranches s = 0"
    and l: "LineCoverageRate s = Finite (4691249611844266 / 2 ^ 46)"
    and b: "BranchCoverageRate s = Finite 0"
    by (simp add: Summarize_def)
  from C1_coverage_rates [OF p] t
  have "coverageRate (LineCoverageRate s) 2 3" and "coverageRate (BranchCoverageRate s) 0 0"
    by simp_all
  with p t l b show ?thesis by blast
qed

section \<open>An unterminated file block\<close>

lemma run_no_end:
  "run st ts = Inr st' \<Longrightarrow> \<forall>t \<in> set ts. \<not> isEndOfRecord t \<Longrightarrow> summary st' = summary st"
proof (induction ts arbitrary: st)
  case Nil
  then show ?case by simp
next
  case (Cons t ts)
  from Cons.prems(1) obtain st1 where s1: "step st t = Inr st1" and r1: "run st1 ts = Inr st'"
    by (auto split: sum.splits)
  from Cons.prems(2) have "\<not> isEndOfRecord t" by simp
  with step_summary [OF s1] have "summary st1 = summary st" by auto
  moreover from Cons.IH [OF r1] Cons.prems(2) have "summary st' = summary st1" by simp
  ultimately show ?case by simp
qed

lemma throughLastEnd_split:
  "ts = throughLastEnd ts @ rev (takeWhile (\<lambda>t. \<not> isEndOfRecord t) (rev ts))"
proof -
  have "ts = rev (takeWhile (\<lambda>t. \<not> isEndOfRecord t) (rev ts) @ dropWhile (\<lambda>t. \<not> isEndOfRecord t) (rev ts))"
    by (simp only: takeWhile_dropWhile_id rev_rev_ident)
  also have "\<dots> = rev (dropWhile (\<lambda>t. \<not> isEndOfRecord t) (rev ts)) @ rev (takeWhile (\<lambda>t. \<not> isEndOfRecord t) (rev ts))"
    by (rule rev_append)
  finally show ?thesis by (simp only: throughLastEnd_def)
qed

text \<open>
  Claim C4. When the input ends (with no read error) while a file block is open,
  \<open>Parse\<close> returns a summary and no error, and the summary is the one of the input cut
  after its last end-of-record marker: every field, the list of file records and the
  rates included, is what it was when that marker was handled. The open block adds
  nothing.
\<close>

theorem C4_open_block_dropped:
  assumes "run initState ts = Inr st" and "currentFile st \<noteq> None"
  shows "Parse \<lparr>scanner = \<lparr>tokens = ts, scanErr = None\<rparr>\<rparr> = (Some (calcRates (summary st)), None)
       \<and> (\<exists>st0. run initState (throughLastEnd ts) = Inr st0 \<and> summary st = summary st0)
       \<and> Parse \<lparr>scanner = \<lparr>tokens = ts, scanErr = None\<rparr>\<rparr>
           = Parse \<lparr>scanner = \<lparr>tokens = throughLastEnd ts, scanErr = None\<rparr>\<rparr>"
proof -
  let ?post = "rev (takeWhile (\<lambda>t. \<not> isEndOfRecord t) (rev ts))"
  have split: "ts = throughLastEnd ts @ ?post" by (rule throughLastEnd_split)
  have noend: "\<forall>t \<in> set ?post. \<not> isEndOfRecord t"
    by (auto dest: set_takeWhileD)
  from assms(1) have "run initState (throughLastEnd ts @ ?post) = Inr st"
    using split by simp
  then obtain st0 where r0: "run initState (throughLastEnd ts) = Inr st0"
    and r1: "run st0 ?post = Inr st"
    by (auto simp: run_append split: sum.splits)
  from run_no_end [OF r1 noend] have eq: "summary st = summary st0" .
  show ?thesis
    using assms(1) r0 eq by (simp add: Parse_def)
qed

theorem C4_open_block_dropped_witness:
  "throughLastEnd [''SF:a'', ''LF:3'', ''end_of_record'', ''SF:b'', ''LF:5'']
     = [''SF:a'', ''LF:3'', ''end_of_record'']
   \<and> Parse \<lparr>scanner = \<lparr>tokens = [''SF:a'', ''LF:3'', ''end_of_record'', ''SF:b'', ''LF:5''],
                         scanErr = None\<rparr>\<rparr>
     = Parse \<lparr>scanner = \<lparr>tokens = [''SF:a'', ''LF:3'', ''end_of_record''], scanErr = None\<rparr>\<rparr>
   \<and> Parse \<lparr>scanner = \<lparr>tokens = [''SF:a'', ''LF:3'', ''end_of_record''], scanErr = None\<rparr>\<rparr>
     = (Some (emptySummary\<lparr>TotalFiles := 1, TotalLines := 3,
               Files := [(newFileRecord [])\<lparr>SourceFile := ''a'', LinesFound := 3\<rparr>]\<rparr>), None)"
proof -
  let ?st = "\<lparr>summary = emptySummary\<lparr>TotalFiles := 1, TotalLines := 3,
                 Files := [(newFileRecord [])\<lparr>SourceFile := ''a'', LinesFound := 3\<rparr>]\<rparr>,
               currentFile = Some ((newFileRecord [])\<lparr>SourceFile := ''b'', LinesFound := 5\<rparr>)\<rparr>"
  have r: "run initState [''SF:a'', ''LF:3'', ''end_of_record'', ''SF:b'', ''LF:5''] = Inr ?st"
    by (simp add: trimEval valueEval parseEval)
  have o: "currentFile ?st \<noteq> None" by simp
  have t: "throughLastEnd [''SF:a'', ''LF:3'', ''end_of_record'', ''SF:b'', ''LF:5'']
             = [''SF:a'', ''LF:3'', ''end_of_record'']"
    by (simp add: throughLastEnd_def isEndOfRecord_def recordAt_def trimEval valueEval)
  have p: "Parse \<lparr>scanner = \<lparr>tokens = [''SF:a'', ''LF:3'', ''end_of_record''], scanErr = None\<rparr>\<rparr>
     = (Some (emptySummary\<lparr>TotalFiles := 1, TotalLines := 3,
               Files := [(newFileRecord [])\<lparr>SourceFile := ''a'', LinesFound := 3\<rparr>]\<rparr>), None)"
    by (simp add: trimEval valueEval parseEval floatEval)
  note e = C4_open_block_dropped [OF r o, THEN conjunct2, THEN conjunct2]
  have e': "Parse \<lparr>scanner = \<lparr>tokens = [''SF:a'', ''LF:3'', ''end_of_record'', ''SF:b'', ''LF:5''],
                         scanErr = None\<rparr>\<rparr>
     = Parse \<lparr>scanner = \<lparr>tokens = [''SF:a'', ''LF:3'', ''end_of_record''], scanErr = None\<rparr>\<rparr>"
    using e by (simp only: t)
  show ?thesis by (intro conjI t e' p)
qed

section \<open>A test name opens a file block\<close>

lemma parseLineData_error: "parseLineData v = Inl e \<Longrightarrow> take 7 e = ''invalid''"
  by (auto simp: parseLineData_def Let_def split: if_splits option.splits)

lemma parseFunctionName_error: "parseFunctionName v = Inl e \<Longrightarrow> take 7 e = ''invalid''"
  by (auto simp: parseFunctionName_def Let_def split: if_splits option.splits)

lemma parseBranchData_error: "parseBranchData v = Inl e \<Longrightarrow> take 7 e = ''invalid''"
  by (auto simp: parseBranchData_def Let_def split: if_splits option.splits)

lemma handleRecord_open_error:
  "currentFile st = Some f \<Longrightarrow> handleRecord st r = Inl e \<Longrightarrow> take 7 e = ''invalid''"
  by (auto simp: handleRecord_def split: if_splits option.splits sum.splits
           dest: parseLineData_error parseFunctionName_error parseBranchData_error)

lemma step_open_error:
  assumes "currentFile st = Some f" and "step st t = Inl e"
  shows "take 7 e = ''invalid'' \<or> take 7 e = ''failed ''"
proof (cases "recordAt t")
  case None
  with step_no_record [of t st] assms(2) show ?thesis by (auto simp: parseFailure_def)
next
  case (Some r)
  with assms(2) have "handleRecord st r = Inl e" by (simp add: step_recordAt)
  from handleRecord_open_error [OF assms(1) this] show ?thesis by simp
qed

text \<open>
  Claim C9. A test-name record handled while no file block is open opens one, with the
  test name set and an empty source path; while a block is open no token gives any of
  the eight "without source file" errors. So \<open>TN:x\<close> followed by \<open>DA:1,1\<close>
  parses without error, and \<open>TN:x\<close> followed by \<open>end_of_record\<close> gives a summary
  with one file, whose record has the test name \<open>x\<close> and an empty source path.
\<close>

theorem C9_test_name_opens_block:
  "(\<forall>(st::pstate) t r. currentFile st = None \<and> recordAt t = Some r \<and> Type r = RecordTestName \<longrightarrow>
       step st t = Inr (st\<lparr>currentFile := Some (newFileRecord (Value r))\<rparr>))
   \<and> (\<forall>(st::pstate) f t k. currentFile st = Some f \<and> k \<in> set fileScopedKinds \<longrightarrow>
         step st t \<noteq> Inl (sequencingError (snd k)))
   \<and> Summarize (NewReader ''TN:x\<newline>DA:1,1'') = (Some emptySummary, None)
   \<and> Summarize (NewReader ''TN:x\<newline>end_of_record'')
       = (Some (emptySummary\<lparr>TotalFiles := 1, Files := [newFileRecord ''x'']\<rparr>), None)
   \<and> SourceFile (newFileRecord ''x'') = []"
proof (intro conjI allI impI)
  fix st :: pstate and t r
  assume "currentFile st = None \<and> recordAt t = Some r \<and> Type r = RecordTestName"
  then show "step st t = Inr (st\<lparr>currentFile := Some (newFileRecord (Value r))\<rparr>)"
    by (simp add: step_recordAt handleRecord_def)
next
  fix st :: pstate and f t k
  assume a: "currentFile st = Some f \<and> k \<in> set fileScopedKinds"
  show "step st t \<noteq> Inl (sequencingError (snd k))"
  proof
    assume "step st t = Inl (sequencingError (snd k))"
    with a have "take 7 (sequencingError (snd k)) = ''invalid''
               \<or> take 7 (sequencingError (snd k)) = ''failed ''"
      by (auto dest: step_open_error)
    with a show False
      by (auto simp: fileScopedKinds_def sequencingError_def)
  qed
next
  show "Summarize (NewReader ''TN:x\<newline>DA:1,1'') = (Some emptySummary, None)"
    by (simp add: inputEval parseEval)
next
  show "Summarize (NewReader ''TN:x\<newline>end_of_record'')
       = (Some (emptySummary\<lparr>TotalFiles := 1, Files := [newFileRecord ''x'']\<rparr>), None)"
    by (simp add: inputEval parseEval)
next
  show "SourceFile (newFileRecord ''x'') = []" by (simp add: newFileRecord_def)
qed

theorem C9_test_name_opens_block_witness:
  "recordAt ''TN:x'' = Some \<lparr>Type = RecordTestName, Value = ''x''\<rparr>
   \<and> step initState ''TN:x'' = Inr (initState\<lparr>currentFile := Some (newFileRecord ''x'')\<rparr>)
   \<and> (RecordLineData, ''line data'') \<in> set fileScopedKinds
   \<and> step (initState\<lparr>currentFile := Some (newFileRecord ''x'')\<rparr>) ''DA:1,1''
       \<noteq> Inl (sequencingError ''line data'')"
proof -
  have r: "recordAt ''TN:x'' = Some \<lparr>Type = RecordTestName, Value = ''x''\<rparr>"
    by (simp add: recordAt_def trimEval valueEval)
  have n: "currentFile initState = None" by (simp add: initState_def)
  have k: "(RecordLineData, ''line data'') \<in> set fileScopedKinds"
    by (simp add: fileScopedKinds_def)
  from C9_test_name_opens_block
  have a: "\<forall>(st::pstate) t r. currentFile st = None \<and> recordAt t = Some r \<and> Type r = RecordTestName \<longrightarrow>
       step st t = Inr (st\<lparr>currentFile := Some (newFileRecord (Value r))\<rparr>)"
    and b: "\<forall>(st::pstate) f t k. currentFile st = Some f \<and> k \<in> set fileScopedKinds \<longrightarrow>
         step st t \<noteq> Inl (sequencingError (snd k))"
    by blast+
  from a n r have s: "step initState ''TN:x'' = Inr (initState\<lparr>currentFile := Some (newFileRecord ''x'')\<rparr>)"
    by fastforce
  from b k have "step (initState\<lparr>currentFile := Some (newFileRecord ''x'')\<rparr>) ''DA:1,1''
       \<noteq> Inl (sequencingError (snd (RecordLineData, ''line data'')))"
    by fastforce
  with r s k show ?thesis by simp
qed

section \<open>The values of the records\<close>

lemma functionDataHit_iff:
  "functionDataHit v \<longleftrightarrow> (\<exists>a b n. Split (CHR '','') v = [a, b] \<and> Atoi a = Some n \<and> 0 <s n)"
proof
  assume h: "functionDataHit v"
  then have l: "length (Split (CHR '','') v) = 2"
    by (simp add: functionDataHit_def Let_def split: if_splits)
  then obtain a b where ab: "Split (CHR '','') v = [a, b]"
    by (auto simp: length_Suc_conv numeral_2_eq_2)
  with h show "\<exists>a b n. Split (CHR '','') v = [a, b] \<and> Atoi a = Some n \<and> 0 <s n"
    by (auto simp: functionDataHit_def split: option.splits)
next
  assume "\<exists>a b n. Split (CHR '','') v = [a, b] \<and> Atoi a = Some n \<and> 0 <s n"
  then show "functionDataHit v" by (auto simp: functionDataHit_def)
qed

lemma parseLineData_ok_iff:
  "(\<exists>d. parseLineData v = Inr d)
   \<longleftrightarrow> (\<exists>a b m n. Split (CHR '','') v = [a, b] \<and> Atoi a = Some m \<and> Atoi b = Some n)"
proof
  assume "\<exists>d. parseLineData v = Inr d"
  then obtain d where d: "parseLineData v = Inr d" ..
  then have l: "length (Split (CHR '','') v) = 2"
    by (simp add: parseLineData_def Let_def split: if_splits)
  then obtain a b where ab: "Split (CHR '','') v = [a, b]"
    by (auto simp: length_Suc_conv numeral_2_eq_2)
  with d show "\<exists>a b m n. Split (CHR '','') v = [a, b] \<and> Atoi a = Some m \<and> Atoi b = Some n"
    by (auto simp: parseLineData_def Let_def split: option.splits)
next
  assume "\<exists>a b m n. Split (CHR '','') v = [a, b] \<and> Atoi a = Some m \<and> Atoi b = Some n"
  then show "\<exists>d. parseLineData v = Inr d" by (auto simp: parseLineData_def)
qed

lemma length4:
  "length xs = 4 \<Longrightarrow> \<exists>a b c d. xs = [a, b, c, d]"
  by (auto simp: length_Suc_conv eval_nat_numeral)

lemma parseBranchData_cases:
  assumes "Split (CHR '','') v = [a, b, c, d]"
  shows "parseBranchData v =
     (if Atoi a = None then Inl (''invalid branch line number: '' @ a)
      else if Atoi b = None then Inl (''invalid branch block number: '' @ b)
      else if Atoi c = None then Inl (''invalid branch number: '' @ c)
      else if d = ''-'' then Inr \<lparr>BrLineNumber = the (Atoi a), BlockNumber = the (Atoi b),
                                  BranchNumber = the (Atoi c), BrExecutionCount = 0\<rparr>
      else if Atoi d = None then Inl (''invalid branch execution count: '' @ d)
      else Inr \<lparr>BrLineNumber = the (Atoi a), BlockNumber = the (Atoi b),
                BranchNumber = the (Atoi c), BrExecutionCount = the (Atoi d)\<rparr>)"
  using assms by (auto simp: parseBranchData_def split: option.splits)

lemma parseBranchData_arity:
  "length (Split (CHR '','') v) \<noteq> 4 \<Longrightarrow> parseBranchData v = Inl (''invalid branch data format: '' @ v)"
  by (simp add: parseBranchData_def)

lemma isValidBranchData_iff: "isValidBranchData v \<longleftrightarrow> (\<exists>bd. parseBranchData v = Inr bd)"
proof (cases "length (Split (CHR '','') v) = 4")
  case True
  then obtain a b c d where s: "Split (CHR '','') v = [a, b, c, d]"
    using length4 by blast
  show ?thesis
    by (auto simp: parseBranchData_cases [OF s] isValidBranchData_def s)
next
  case False
  then show ?thesis by (simp add: parseBranchData_arity isValidBranchData_def)
qed

lemma handleRecord_FNDA:
  "currentFile st = Some f \<Longrightarrow> Type r = RecordFunctionData \<Longrightarrow>
   handleRecord st r =
     Inr (st\<lparr>currentFile := Some (f\<lparr>FunctionsHit := FunctionsHit f + (if functionDataHit (Value r) then 1 else 0)\<rparr>)\<rparr>)"
  by (simp add: handleRecord_def recordTypes)

lemma handleRecord_DA:
  "currentFile st = Some f \<Longrightarrow> Type r = RecordLineData \<Longrightarrow>
   handleRecord st r =
     (case parseLineData (Value r) of Inl err \<Rightarrow> Inl err
      | Inr lineData \<Rightarrow> Inr (st\<lparr>currentFile := Some (f\<lparr>Lines := Lines f @ [lineData]\<rparr>)\<rparr>))"
  by (simp add: handleRecord_def recordTypes)

lemma handleRecord_BRDA:
  "currentFile st = Some f \<Longrightarrow> Type r = RecordBranchData \<Longrightarrow>
   handleRecord st r =
     (case parseBranchData (Value r) of Inl err \<Rightarrow> Inl err
      | Inr branchData \<Rightarrow> Inr (st\<lparr>currentFile := Some (f\<lparr>Branches := Branches f @ [branchData]\<rparr>)\<rparr>))"
  by (simp add: handleRecord_def recordTypes)

lemma handleRecordCounters_BRDA:
  "inFile st \<Longrightarrow> Type r = RecordBranchData \<Longrightarrow>
   handleRecordCounters st r =
     (if isValidBranchData (Value r) then Inr st
      else Inl (''invalid branch data format: '' @ Value r))"
  by (simp add: handleRecordCounters_def recordTypes)


lemma run_snoc_step:
  "run st0 pre = Inr st \<Longrightarrow> run st0 (pre @ t # rest) = (case step st t of Inl e \<Rightarrow> Inl e | Inr st' \<Rightarrow> run st' rest)"
  by (simp add: run_append)

lemma Parse_fails_at:
  "run initState pre = Inr st \<Longrightarrow> step st t = Inl e \<Longrightarrow>
   Parse \<lparr>scanner = \<lparr>tokens = pre @ t # rest, scanErr = se\<rparr>\<rparr> = (None, Some e)"
  by (simp add: Parse_def run_snoc_step)

section \<open>Function data is never an error\<close>

text \<open>
  Claim C7. A function-data record handled while a file block is open never fails,
  whatever its value: the loop goes on with the rest of the input, and the block's
  functions-hit counter is one more exactly when the value splits on commas into exactly
  two parts of which the first is an integer above 0; otherwise the state is unchanged.
  A line-data or branch-data record that is malformed makes \<open>Parse\<close> fail.
\<close>

theorem C7_function_data_never_fails:
  "(\<forall>pre st f t r rest.
      run initState pre = Inr st \<and> currentFile st = Some f
      \<and> recordAt t = Some r \<and> Type r = RecordFunctionData \<longrightarrow>
        run initState (pre @ t # rest) =
          run (st\<lparr>currentFile := Some (f\<lparr>FunctionsHit := FunctionsHit f +
                 (if \<exists>a b n. Split (CHR '','') (Value r) = [a, b] \<and> Atoi a = Some n \<and> 0 <s n
                  then 1 else 0)\<rparr>)\<rparr>) rest)
   \<and> (\<forall>pre st f t r rest se.
        run initState pre = Inr st \<and> currentFile st = Some f
        \<and> recordAt t = Some r \<and> Type r = RecordLineData
        \<and> \<not> (\<exists>a b m n. Split (CHR '','') (Value r) = [a, b] \<and> Atoi a = Some m \<and> Atoi b = Some n)
        \<longrightarrow> (\<exists>e. Parse \<lparr>scanner = \<lparr>tokens = pre @ t # rest, scanErr = se\<rparr>\<rparr> = (None, Some e)))
   \<and> (\<forall>pre st f t r rest se.
        run initState pre = Inr st \<and> currentFile st = Some f
        \<and> recordAt t = Some r \<and> Type r = RecordBranchData
        \<and> \<not> (\<exists>a b c d x y z. Split (CHR '','') (Value r) = [a, b, c, d] \<and> Atoi a = Some x
                \<and> Atoi b = Some y \<and> Atoi c = Some z \<and> (d = ''-'' \<or> Atoi d \<noteq> None))
        \<longrightarrow> (\<exists>e. Parse \<lparr>scanner = \<lparr>tokens = pre @ t # rest, scanErr = se\<rparr>\<rparr> = (None, Some e)))"
proof (intro conjI allI impI)
  fix pre and st :: pstate and f t r rest
  assume a: "run initState pre = Inr st \<and> currentFile st = Some f
      \<and> recordAt t = Some r \<and> Type r = RecordFunctionData"
  then have s: "step st t =
          Inr (st\<lparr>currentFile := Some (f\<lparr>FunctionsHit := FunctionsHit f +
                 (if \<exists>a b n. Split (CHR '','') (Value r) = [a, b] \<and> Atoi a = Some n \<and> 0 <s n
                  then 1 else 0)\<rparr>)\<rparr>)"
    by (simp only: step_recordAt handleRecord_FNDA functionDataHit_iff)
  from a have "run initState pre = Inr st" by simp
  from run_snoc_step [OF this] s
  show "run initState (pre @ t # rest) =
          run (st\<lparr>currentFile := Some (f\<lparr>FunctionsHit := FunctionsHit f +
                 (if \<exists>a b n. Split (CHR '','') (Value r) = [a, b] \<and> Atoi a = Some n \<and> 0 <s n
                  then 1 else 0)\<rparr>)\<rparr>) rest"
    by (simp only: sum.case)
next
  fix pre and st :: pstate and f t r rest se
  assume a: "run initState pre = Inr st \<and> currentFile st = Some f
        \<and> recordAt t = Some r \<and> Type r = RecordLineData
        \<and> \<not> (\<exists>a b m n. Split (CHR '','') (Value r) = [a, b] \<and> Atoi a = Some m \<and> Atoi b = Some n)"
  then have "\<not> (\<exists>d. parseLineData (Value r) = Inr d)"
    by (simp only: parseLineData_ok_iff) simp
  then obtain e where "parseLineData (Value r) = Inl e"
    by (cases "parseLineData (Value r)") auto
  with a have "step st t = Inl e"
    by (simp add: step_recordAt handleRecord_DA)
  with a show "\<exists>e. Parse \<lparr>scanner = \<lparr>tokens = pre @ t # rest, scanErr = se\<rparr>\<rparr> = (None, Some e)"
    by (auto intro: Parse_fails_at)
next
  fix pre and st :: pstate and f t r rest se
  assume a: "run initState pre = Inr st \<and> currentFile st = Some f
        \<and> recordAt t = Some r \<and> Type r = RecordBranchData
        \<and> \<not> (\<exists>a b c d x y z. Split (CHR '','') (Value r) = [a, b, c, d] \<and> Atoi a = Some x
                \<and> Atoi b = Some y \<and> Atoi c = Some z \<and> (d = ''-'' \<or> Atoi d \<noteq> None))"
  have "\<exists>e. parseBranchData (Value r) = Inl e"
  proof (cases "length (Split (CHR '','') (Value r)) = 4")
    case True
    then obtain a' b' c' d' where s: "Split (CHR '','') (Value r) = [a', b', c', d']"
      using length4 by blast
    with a have "Atoi a' = None \<or> Atoi b' = None \<or> Atoi c' = None \<or> (d' \<noteq> ''-'' \<and> Atoi d' = None)"
      by auto
    then show ?thesis by (auto simp: parseBranchData_cases [OF s])
  next
    case False
    then show ?thesis by (simp add: parseBranchData_arity)
  qed
  then obtain e where "parseBranchData (Value r) = Inl e" ..
  with a have "step st t = Inl e"
    by (simp add: step_recordAt handleRecord_BRDA)
  with a show "\<exists>e. Parse \<lparr>scanner = \<lparr>tokens = pre @ t # rest, scanErr = se\<rparr>\<rparr> = (None, Some e)"
    by (auto intro: Parse_fails_at)
qed

lemma run_SF: "run initState [''SF:a''] = Inr openBlock"
  by (simp add: openBlock_def trimEval valueEval parseEval)

theorem C7_function_data_never_fails_witness:
  "run initState [''SF:a'', ''FNDA:3,f'']
     = Inr (openBlock\<lparr>currentFile := Some ((newFileRecord [])\<lparr>SourceFile := ''a'', FunctionsHit := 1\<rparr>)\<rparr>)
   \<and> run initState [''SF:a'', ''FNDA:many'', ''FNDA:-3,f'', ''FNDA:0,f'', ''FNDA:1,f,g''] = Inr openBlock
   \<and> (\<exists>e. Parse \<lparr>scanner = \<lparr>tokens = [''SF:a'', ''DA:1:5'', ''end_of_record''], scanErr = None\<rparr>\<rparr>
            = (None, Some e))
   \<and> (\<exists>e. Parse \<lparr>scanner = \<lparr>tokens = [''SF:a'', ''BRDA:1,0,0'', ''end_of_record''], scanErr = None\<rparr>\<rparr>
            = (None, Some e))"
proof -
  have o: "currentFile openBlock = Some ((newFileRecord [])\<lparr>SourceFile := ''a''\<rparr>)"
    by (simp add: openBlock_def)
  have r1: "recordAt ''FNDA:3,f'' = Some \<lparr>Type = RecordFunctionData, Value = ''3,f''\<rparr>"
    and r2: "recordAt ''DA:1:5'' = Some \<lparr>Type = RecordLineData, Value = ''1:5''\<rparr>"
    and r3: "recordAt ''BRDA:1,0,0'' = Some \<lparr>Type = RecordBranchData, Value = ''1,0,0''\<rparr>"
    by (simp_all add: recordAt_def trimEval valueEval)
  have v1: "\<exists>a b n. Split (CHR '','') ''3,f'' = [a, b] \<and> Atoi a = Some n \<and> 0 <s n"
    by (simp add: valueEval)
  have v2: "\<not> (\<exists>a b m n. Split (CHR '','') ''1:5'' = [a, b] \<and> Atoi a = Some m \<and> Atoi b = Some n)"
    by (simp add: valueEval)
  have v3: "\<not> (\<exists>a b c d x y z. Split (CHR '','') ''1,0,0'' = [a, b, c, d] \<and> Atoi a = Some x
                \<and> Atoi b = Some y \<and> Atoi c = Some z \<and> (d = ''-'' \<or> Atoi d \<noteq> None))"
    by (simp add: valueEval)
  note c = C7_function_data_never_fails
  from c [THEN conjunct1, rule_format, of "[''SF:a'']" openBlock _ "''FNDA:3,f''" _ "[]"] run_SF o r1 v1
  have a: "run initState [''SF:a'', ''FNDA:3,f'']
     = Inr (openBlock\<lparr>currentFile := Some ((newFileRecord [])\<lparr>SourceFile := ''a'', FunctionsHit := 1\<rparr>)\<rparr>)"
    by (simp add: newFileRecord_def)
  have b: "run initState [''SF:a'', ''FNDA:many'', ''FNDA:-3,f'', ''FNDA:0,f'', ''FNDA:1,f,g''] = Inr openBlock"
    by (simp add: openBlock_def trimEval valueEval parseEval)
  from c [THEN conjunct2, THEN conjunct1, rule_format, of "[''SF:a'']" openBlock _ "''DA:1:5''" _ "[''end_of_record'']" None]
    run_SF o r2 v2
  have d: "\<exists>e. Parse \<lparr>scanner = \<lparr>tokens = [''SF:a'', ''DA:1:5'', ''end_of_record''], scanErr = None\<rparr>\<rparr>
            = (None, Some e)"
    by simp
  from c [THEN conjunct2, THEN conjunct2, rule_format, of "[''SF:a'']" openBlock _ "''BRDA:1,0,0''" _ "[''end_of_record'']" None]
    run_SF o r3 v3
  have e: "\<exists>e. Parse \<lparr>scanner = \<lparr>tokens = [''SF:a'', ''BRDA:1,0,0'', ''end_of_record''], scanErr = None\<rparr>\<rparr>
            = (None, Some e)"
    by simp
  from a b d e show ?thesis by blast
qed

section \<open>Branch data\<close>

lemma runCounters_append:
  "runCounters st (xs @ ys) = (case runCounters st xs of Inl e \<Rightarrow> Inl e | Inr st' \<Rightarrow> runCounters st' ys)"
  by (induction xs arbitrary: st) (auto split: sum.splits)

lemma ParseCounters_fails_at:
  "runCounters initCounters pre = Inr st \<Longrightarrow> stepCounters st t = Inl e \<Longrightarrow>
   ParseCounters \<lparr>scanner = \<lparr>tokens = pre @ t # rest, scanErr = se\<rparr>\<rparr> = (None, Some e)"
  by (simp add: ParseCounters_def runCounters_append)

lemma isValidBranchData_parts:
  "isValidBranchData v \<longleftrightarrow>
   (\<exists>a b c d x y z. Split (CHR '','') v = [a, b, c, d] \<and> Atoi a = Some x \<and> Atoi b = Some y
       \<and> Atoi c = Some z \<and> (d = ''-'' \<or> Atoi d \<noteq> None))"
proof (cases "length (Split (CHR '','') v) = 4")
  case True
  then obtain a b c d where s: "Split (CHR '','') v = [a, b, c, d]"
    using length4 by blast
  show ?thesis by (auto simp: isValidBranchData_def s)
next
  case False
  then show ?thesis by (auto simp: isValidBranchData_def)
qed

text \<open>
  Claim C8. For a branch-data record handled while a file block is open: a fourth field
  \<open>-\<close> is accepted and stored as the execution count 0 (so \<open>10,2,1,-\<close> parses with
  count 0); a value with other than four comma-separated parts makes \<open>Parse\<close> fail
  with "invalid branch data format: " and the value; four parts with a non-integer line,
  block or branch field, or a fourth field that is neither \<open>-\<close> nor an integer, make
  it fail with an error that ends with the first offending field. The counters-only
  parser accepts the same values and answers every other one with "invalid branch data
  format: " and the value.
\<close>

theorem C8_branch_data:
  "(\<forall>pre st f t r a b c x y z.
      run initState pre = Inr st \<and> currentFile st = Some f
      \<and> recordAt t = Some r \<and> Type r = RecordBranchData
      \<and> Split (CHR '','') (Value r) = [a, b, c, ''-'']
      \<and> Atoi a = Some x \<and> Atoi b = Some y \<and> Atoi c = Some z \<longrightarrow>
        run initState (pre @ [t]) =
          Inr (st\<lparr>currentFile := Some (f\<lparr>Branches := Branches f @
                 [\<lparr>BrLineNumber = x, BlockNumber = y, BranchNumber = z, BrExecutionCount = 0\<rparr>]\<rparr>)\<rparr>))
   \<and> parseBranchData ''10,2,1,-''
       = Inr \<lparr>BrLineNumber = 10, BlockNumber = 2, BranchNumber = 1, BrExecutionCount = 0\<rparr>
   \<and> (\<forall>pre st f t r rest se.
        run initState pre = Inr st \<and> currentFile st = Some f
        \<and> recordAt t = Some r \<and> Type r = RecordBranchData
        \<and> length (Split (CHR '','') (Value r)) \<noteq> 4 \<longrightarrow>
          Parse \<lparr>scanner = \<lparr>tokens = pre @ t # rest, scanErr = se\<rparr>\<rparr>
            = (None, Some (''invalid branch data format: '' @ Value r)))
   \<and> (\<forall>pre st f t r rest se a b c d.
        run initState pre = Inr st \<and> currentFile st = Some f
        \<and> recordAt t = Some r \<and> Type r = RecordBranchData
        \<and> Split (CHR '','') (Value r) = [a, b, c, d]
        \<and> (Atoi a = None \<or> Atoi b = None \<or> Atoi c = None \<or> (d \<noteq> ''-'' \<and> Atoi d = None)) \<longrightarrow>
          Parse \<lparr>scanner = \<lparr>tokens = pre @ t # rest, scanErr = se\<rparr>\<rparr>
            = (None, Some (if Atoi a = None then ''invalid branch line number: '' @ a
                           else if Atoi b = None then ''invalid branch block number: '' @ b
                           else if Atoi c = None then ''invalid branch number: '' @ c
                           else ''invalid branch execution count: '' @ d)))
   \<and> (\<forall>pre st t r rest se.
        runCounters initCounters pre = Inr st \<and> inFile st
        \<and> recordAt t = Some r \<and> Type r = RecordBranchData \<longrightarrow>
          (if \<exists>a b c d x y z. Split (CHR '','') (Value r) = [a, b, c, d] \<and> Atoi a = Some x
                \<and> Atoi b = Some y \<and> Atoi c = Some z \<and> (d = ''-'' \<or> Atoi d \<noteq> None)
           then runCounters initCounters (pre @ [t]) = Inr st
           else ParseCounters \<lparr>scanner = \<lparr>tokens = pre @ t # rest, scanErr = se\<rparr>\<rparr>
                  = (None, Some (''invalid branch data format: '' @ Value r))))"
proof (intro conjI allI impI)
  fix pre and st :: pstate and f t r a b c x y z
  assume h: "run initState pre = Inr st \<and> currentFile st = Some f
      \<and> recordAt t = Some r \<and> Type r = RecordBranchData
      \<and> Split (CHR '','') (Value r) = [a, b, c, ''-'']
      \<and> Atoi a = Some x \<and> Atoi b = Some y \<and> Atoi c = Some z"
  then have s: "Split (CHR '','') (Value r) = [a, b, c, ''-'']" by simp
  from h have "step st t =
     Inr (st\<lparr>currentFile := Some (f\<lparr>Branches := Branches f @
            [\<lparr>BrLineNumber = x, BlockNumber = y, BranchNumber = z, BrExecutionCount = 0\<rparr>]\<rparr>)\<rparr>)"
    by (simp add: step_recordAt handleRecord_BRDA parseBranchData_cases [OF s])
  with h show "run initState (pre @ [t]) =
          Inr (st\<lparr>currentFile := Some (f\<lparr>Branches := Branches f @
                 [\<lparr>BrLineNumber = x, BlockNumber = y, BranchNumber = z, BrExecutionCount = 0\<rparr>]\<rparr>)\<rparr>)"
    by (simp add: run_append)
next
  show "parseBranchData ''10,2,1,-''
       = Inr \<lparr>BrLineNumber = 10, BlockNumber = 2, BranchNumber = 1, BrExecutionCount = 0\<rparr>"
    by (simp add: valueEval)
next
  fix pre and st :: pstate and f t r rest se
  assume h: "run initState pre = Inr st \<and> currentFile st = Some f
        \<and> recordAt t = Some r \<and> Type r = RecordBranchData
        \<and> length (Split (CHR '','') (Value r)) \<noteq> 4"
  then have "step st t = Inl (''invalid branch data format: '' @ Value r)"
    by (simp add: step_recordAt handleRecord_BRDA parseBranchData_arity)
  with h show "Parse \<lparr>scanner = \<lparr>tokens = pre @ t # rest, scanErr = se\<rparr>\<rparr>
            = (None, Some (''invalid branch data format: '' @ Value r))"
    by (simp add: Parse_fails_at)
next
  fix pre and st :: pstate and f t r rest se a b c d
  assume h: "run initState pre = Inr st \<and> currentFile st = Some f
        \<and> recordAt t = Some r \<and> Type r = RecordBranchData
        \<and> Split (CHR '','') (Value r) = [a, b, c, d]
        \<and> (Atoi a = None \<or> Atoi b = None \<or> Atoi c = None \<or> (d \<noteq> ''-'' \<and> Atoi d = None))"
  then have s: "Split (CHR '','') (Value r) = [a, b, c, d]" by simp
  let ?e = "if Atoi a = None then ''invalid branch line number: '' @ a
            else if Atoi b = None then ''invalid branch block number: '' @ b
            else if Atoi c = None then ''invalid branch number: '' @ c
            else ''invalid branch execution count: '' @ d"
  from h have "parseBranchData (Value r) = Inl ?e"
    by (auto simp: parseBranchData_cases [OF s])
  with h have "step st t = Inl ?e"
    by (simp add: step_recordAt handleRecord_BRDA)
  with h show "Parse \<lparr>scanner = \<lparr>tokens = pre @ t # rest, scanErr = se\<rparr>\<rparr> = (None, Some ?e)"
    by (simp add: Parse_fails_at)
next
  fix pre and st :: cstate and t r rest se
  assume h: "runCounters initCounters pre = Inr st \<and> inFile st
        \<and> recordAt t = Some r \<and> Type r = RecordBranchData"
  then have s: "stepCounters st t =
     (if isValidBranchData (Value r) then Inr st
      else Inl (''invalid branch data format: '' @ Value r))"
    by (simp add: stepCounters_recordAt handleRecordCounters_BRDA)
  show "if \<exists>a b c d x y z. Split (CHR '','') (Value r) = [a, b, c, d] \<and> Atoi a = Some x
                \<and> Atoi b = Some y \<and> Atoi c = Some z \<and> (d = ''-'' \<or> Atoi d \<noteq> None)
           then runCounters initCounters (pre @ [t]) = Inr st
           else ParseCounters \<lparr>scanner = \<lparr>tokens = pre @ t # rest, scanErr = se\<rparr>\<rparr>
                  = (None, Some (''invalid branch data format: '' @ Value r))"
  proof (cases "isValidBranchData (Value r)")
    case True
    with s h have "runCounters initCounters (pre @ [t]) = Inr st"
      by (simp add: runCounters_append)
    with True show ?thesis by (simp only: isValidBranchData_parts if_True)
  next
    case False
    with s have "stepCounters st t = Inl (''invalid branch data format: '' @ Value r)" by simp
    with h have "ParseCounters \<lparr>scanner = \<lparr>tokens = pre @ t # rest, scanErr = se\<rparr>\<rparr>
                  = (None, Some (''invalid branch data format: '' @ Value r))"
      by (simp add: ParseCounters_fails_at)
    with False show ?thesis by (simp only: isValidBranchData_parts if_False)
  qed
qed

lemma runCounters_SF: "runCounters initCounters [''SF:a''] = Inr (initCounters\<lparr>inFile := True\<rparr>)"
  by (simp add: trimEval valueEval countersEval)

theorem C8_branch_data_witness:
  "run initState [''SF:a'', ''BRDA:10,2,1,-'']
     = Inr (openBlock\<lparr>currentFile := Some ((newFileRecord [])\<lparr>SourceFile := ''a'',
              Branches := [\<lparr>BrLineNumber = 10, BlockNumber = 2, BranchNumber = 1,
                            BrExecutionCount = 0\<rparr>]\<rparr>)\<rparr>)
   \<and> Parse \<lparr>scanner = \<lparr>tokens = [''SF:a'', ''BRDA:1,0,0'', ''end_of_record''], scanErr = None\<rparr>\<rparr>
       = (None, Some ''invalid branch data format: 1,0,0'')
   \<and> Parse \<lparr>scanner = \<lparr>tokens = [''SF:a'', ''BRDA:1,0,0,invalid'', ''end_of_record''], scanErr = None\<rparr>\<rparr>
       = (None, Some ''invalid branch execution count: invalid'')
   \<and> runCounters initCounters [''SF:a'', ''BRDA:10,2,1,-''] = Inr (initCounters\<lparr>inFile := True\<rparr>)
   \<and> ParseCounters \<lparr>scanner = \<lparr>tokens = [''SF:a'', ''BRDA:1,0,0,invalid'', ''end_of_record''], scanErr = None\<rparr>\<rparr>
       = (None, Some ''invalid branch data format: 1,0,0,invalid'')"
proof -
  have o: "currentFile openBlock = Some ((newFileRecord [])\<lparr>SourceFile := ''a''\<rparr>)"
    by (simp add: openBlock_def)
  have oc: "inFile (initCounters\<lparr>inFile := True\<rparr>)" by simp
  have r1: "recordAt ''BRDA:10,2,1,-'' = Some \<lparr>Type = RecordBranchData, Value = ''10,2,1,-''\<rparr>"
    and r2: "recordAt ''BRDA:1,0,0'' = Some \<lparr>Type = RecordBranchData, Value = ''1,0,0''\<rparr>"
    and r3: "recordAt ''BRDA:1,0,0,invalid'' = Some \<lparr>Type = RecordBranchData, Value = ''1,0,0,invalid''\<rparr>"
    by (simp_all add: recordAt_def trimEval valueEval)
  have s1: "Split (CHR '','') ''10,2,1,-'' = [''10'', ''2'', ''1'', ''-'']"
    and s2: "length (Split (CHR '','') ''1,0,0'') \<noteq> 4"
    and s3: "Split (CHR '','') ''1,0,0,invalid'' = [''1'', ''0'', ''0'', ''invalid'']"
    by (simp_all add: Split.simps)
  have a1: "Atoi ''10'' = Some 10" "Atoi ''2'' = Some 2" "Atoi ''1'' = Some 1" "Atoi ''0'' = Some 0"
    "Atoi ''invalid'' = None"
    by (simp_all add: atoiEval)
  note c = C8_branch_data
  from c [THEN conjunct1, rule_format, of "[''SF:a'']" openBlock _ "''BRDA:10,2,1,-''" _ "''10''" "''2''" "''1''" 10 2 1]
    run_SF o r1 s1 a1
  have w1: "run initState [''SF:a'', ''BRDA:10,2,1,-'']
     = Inr (openBlock\<lparr>currentFile := Some ((newFileRecord [])\<lparr>SourceFile := ''a'',
              Branches := [\<lparr>BrLineNumber = 10, BlockNumber = 2, BranchNumber = 1,
                            BrExecutionCount = 0\<rparr>]\<rparr>)\<rparr>)"
    by (simp add: newFileRecord_def)
  from c [THEN conjunct2, THEN conjunct2, THEN conjunct1, rule_format,
          of "[''SF:a'']" openBlock _ "''BRDA:1,0,0''" _ "[''end_of_record'']" None]
    run_SF o r2 s2
  have w2: "Parse \<lparr>scanner = \<lparr>tokens = [''SF:a'', ''BRDA:1,0,0'', ''end_of_record''], scanErr = None\<rparr>\<rparr>
       = (None, Some ''invalid branch data format: 1,0,0'')"
    by simp
  from c [THEN conjunct2, THEN conjunct2, THEN conjunct2, THEN conjunct1, rule_format,
          of "[''SF:a'']" openBlock _ "''BRDA:1,0,0,invalid''" _ "''1''" "''0''" "''0''" "''invalid''" "[''end_of_record'']" None]
    run_SF o r3 s3 a1
  have w3: "Parse \<lparr>scanner = \<lparr>tokens = [''SF:a'', ''BRDA:1,0,0,invalid'', ''end_of_record''], scanErr = None\<rparr>\<rparr>
       = (None, Some ''invalid branch execution count: invalid'')"
    by simp
  from c [THEN conjunct2, THEN conjunct2, THEN conjunct2, THEN conjunct2, rule_format,
          of "[''SF:a'']" "initCounters\<lparr>inFile := True\<rparr>" "''BRDA:10,2,1,-''" _ "[]" None]
    runCounters_SF oc r1 s1 a1
  have w4: "runCounters initCounters [''SF:a'', ''BRDA:10,2,1,-''] = Inr (initCounters\<lparr>inFile := True\<rparr>)"
    by simp
  from c [THEN conjunct2, THEN conjunct2, THEN conjunct2, THEN conjunct2, rule_format,
          of "[''SF:a'']" "initCounters\<lparr>inFile := True\<rparr>" "''BRDA:1,0,0,invalid''" _ "[''end_of_record'']" None]
    runCounters_SF oc r3 s3 a1
  have w5: "ParseCounters \<lparr>scanner = \<lparr>tokens = [''SF:a'', ''BRDA:1,0,0,invalid'', ''end_of_record''], scanErr = None\<rparr>\<rparr>
       = (None, Some ''invalid branch data format: 1,0,0,invalid'')"
    by simp
  show ?thesis by (intro conjI w1 w2 w3 w4 w5)
qed

section \<open>File-scoped records outside a file block\<close>

lemma handleRecord_currentFile:
  "handleRecord st r = Inr st' \<Longrightarrow>
   (currentFile st' \<noteq> None) =
     (if Type r = RecordEndOfRecord then False
      else if Type r = RecordSourceFile \<or> Type r = RecordTestName then True
      else currentFile st \<noteq> None)"
  by (auto simp: handleRecord_def recordTypes split: if_splits option.splits sum.splits)

lemma handleRecordCounters_inFile:
  "handleRecordCounters st r = Inr st' \<Longrightarrow>
   inFile st' =
     (if Type r = RecordEndOfRecord then False
      else if Type r = RecordSourceFile then True
      else inFile st)"
  by (auto simp: handleRecordCounters_def recordTypes split: if_splits option.splits)

lemma step_currentFile:
  assumes "step st t = Inr st'"
  shows "(currentFile st' \<noteq> None) =
     (if isEndOfRecord t then False
      else if isSourceFile t \<or> isTestName t then True
      else currentFile st \<noteq> None)"
proof (cases "recordAt t")
  case None
  with step_no_record [OF None, of st] assms show ?thesis
    by (auto simp: isEndOfRecord_def isSourceFile_def isTestName_def)
next
  case (Some r)
  with assms have "handleRecord st r = Inr st'" by (simp add: step_recordAt)
  from handleRecord_currentFile [OF this] Some show ?thesis
    by (simp add: isEndOfRecord_def isSourceFile_def isTestName_def)
qed

lemma stepCounters_none:
  "recordAt t = None \<Longrightarrow> stepCounters st t = Inr st' \<Longrightarrow> st' = st"
  by (auto simp: recordAt_def stepCounters_def Let_def split: if_splits sum.splits)

lemma stepCounters_inFile:
  assumes "stepCounters st t = Inr st'"
  shows "inFile st' =
     (if isEndOfRecord t then False else if isSourceFile t then True else inFile st)"
proof (cases "recordAt t")
  case None
  with stepCounters_none [OF None assms] show ?thesis
    by (auto simp: isEndOfRecord_def isSourceFile_def)
next
  case (Some r)
  with assms have "handleRecordCounters st r = Inr st'" by (simp add: stepCounters_recordAt)
  from handleRecordCounters_inFile [OF this] Some show ?thesis
    by (simp add: isEndOfRecord_def isSourceFile_def)
qed

lemma run_currentFile:
  "run st0 pre = Inr st \<Longrightarrow>
   (currentFile st \<noteq> None)
     = blockOpenAfter (\<lambda>t. isSourceFile t \<or> isTestName t) (currentFile st0 \<noteq> None) pre"
proof (induction pre arbitrary: st0)
  case Nil
  then show ?case by simp
next
  case (Cons t pre)
  from Cons.prems obtain st1 where s: "step st0 t = Inr st1" and r: "run st1 pre = Inr st"
    by (auto split: sum.splits)
  from Cons.IH [OF r] step_currentFile [OF s] show ?case by simp
qed

lemma runCounters_inFile:
  "runCounters st0 pre = Inr st \<Longrightarrow> inFile st = blockOpenAfter isSourceFile (inFile st0) pre"
proof (induction pre arbitrary: st0)
  case Nil
  then show ?case by simp
next
  case (Cons t pre)
  from Cons.prems obtain st1 where s: "stepCounters st0 t = Inr st1"
    and r: "runCounters st1 pre = Inr st"
    by (auto split: sum.splits)
  from Cons.IH [OF r] stepCounters_inFile [OF s] show ?case by simp
qed

lemma handleRecord_sequencing:
  "currentFile st = None \<Longrightarrow> (Type r, kind) \<in> set fileScopedKinds \<Longrightarrow>
   handleRecord st r = Inl (sequencingError kind)"
  by (auto simp: fileScopedKinds_def handleRecord_def recordTypes sequencingError_def)

lemma handleRecordCounters_sequencing:
  "\<not> inFile st \<Longrightarrow> (Type r, kind) \<in> set fileScopedKinds \<Longrightarrow>
   handleRecordCounters st r = Inl (sequencingError kind)"
  by (auto simp: fileScopedKinds_def handleRecordCounters_def recordTypes sequencingError_def)

text \<open>
  Claim C5, as stated, with a file block opened by a source-file record only: a
  file-scoped record handled while no such block is open makes \<open>Parse\<close> fail. The
  extended parser does not fail on \<open>TN:x\<close>, \<open>DA:1,1\<close>: no source-file record
  precedes the line-data record, and the summary is returned with no error.
\<close>

theorem C5_counterexample:
  "\<not> sourceFileBlockOpen [''TN:x'']
   \<and> recordAt ''DA:1,1'' = Some \<lparr>Type = RecordLineData, Value = ''1,1''\<rparr>
   \<and> Summarize (NewReader ''TN:x\<newline>DA:1,1'') = (Some emptySummary, None)"
  by (simp add: sourceFileBlockOpen_def isEndOfRecord_def isSourceFile_def recordAt_def
        inputEval parseEval)

text \<open>
  Claim C5, amended. In the extended parser a file block is opened by a source-file
  record or by a test-name record and closed by an end-of-record marker; in the
  counters-only parser it is opened by a source-file record only. In either parser, a
  file-scoped record (line data, lines found, lines hit, function name, function data,
  branch data, branch found, branch hit) handled while no file block is open makes
  \<open>Parse\<close> return no summary and the error "<kind> without source file", whatever
  follows in the input.
\<close>

theorem C5_record_outside_block:
  "(\<forall>pre st t r kind rest se.
      run initState pre = Inr st \<and> \<not> fileBlockOpen pre
      \<and> recordAt t = Some r \<and> (Type r, kind) \<in> set fileScopedKinds \<longrightarrow>
        Parse \<lparr>scanner = \<lparr>tokens = pre @ t # rest, scanErr = se\<rparr>\<rparr>
          = (None, Some (sequencingError kind)))
   \<and> (\<forall>pre st t r kind rest se.
        runCounters initCounters pre = Inr st \<and> \<not> sourceFileBlockOpen pre
        \<and> recordAt t = Some r \<and> (Type r, kind) \<in> set fileScopedKinds \<longrightarrow>
          ParseCounters \<lparr>scanner = \<lparr>tokens = pre @ t # rest, scanErr = se\<rparr>\<rparr>
            = (None, Some (sequencingError kind)))"
proof (intro conjI allI impI)
  fix pre and st :: pstate and t r kind rest se
  assume h: "run initState pre = Inr st \<and> \<not> fileBlockOpen pre
      \<and> recordAt t = Some r \<and> (Type r, kind) \<in> set fileScopedKinds"
  then have r: "run initState pre = Inr st" by simp
  from run_currentFile [OF r] h have "currentFile st = None"
    by (simp add: fileBlockOpen_def initState_def)
  with h have "step st t = Inl (sequencingError kind)"
    by (simp add: step_recordAt handleRecord_sequencing)
  from Parse_fails_at [OF r this]
  show "Parse \<lparr>scanner = \<lparr>tokens = pre @ t # rest, scanErr = se\<rparr>\<rparr>
          = (None, Some (sequencingError kind))" .
next
  fix pre and st :: cstate and t r kind rest se
  assume h: "runCounters initCounters pre = Inr st \<and> \<not> sourceFileBlockOpen pre
        \<and> recordAt t = Some r \<and> (Type r, kind) \<in> set fileScopedKinds"
  then have r: "runCounters initCounters pre = Inr st" by simp
  from runCounters_inFile [OF r] h have "\<not> inFile st"
    by (simp add: sourceFileBlockOpen_def initCounters_def)
  with h have "stepCounters st t = Inl (sequencingError kind)"
    by (simp add: stepCounters_recordAt handleRecordCounters_sequencing)
  from ParseCounters_fails_at [OF r this]
  show "ParseCounters \<lparr>scanner = \<lparr>tokens = pre @ t # rest, scanErr = se\<rparr>\<rparr>
            = (None, Some (sequencingError kind))" .
qed

theorem C5_record_outside_block_witness:
  "Parse \<lparr>scanner = \<lparr>tokens = [''DA:1,5'', ''end_of_record''], scanErr = None\<rparr>\<rparr>
     = (None, Some ''line data without source file'')
   \<and> ParseCounters \<lparr>scanner = \<lparr>tokens = [''TN:x'', ''BRH:1'', ''end_of_record''], scanErr = None\<rparr>\<rparr>
     = (None, Some ''branch hit without source file'')"
proof -
  have r1: "recordAt ''DA:1,5'' = Some \<lparr>Type = RecordLineData, Value = ''1,5''\<rparr>"
    and r2: "recordAt ''BRH:1'' = Some \<lparr>Type = RecordBranchHit, Value = ''1''\<rparr>"
    by (simp_all add: recordAt_def trimEval valueEval)
  have k1: "(RecordLineData, ''line data'') \<in> set fileScopedKinds"
    and k2: "(RecordBranchHit, ''branch hit'') \<in> set fileScopedKinds"
    by (simp_all add: fileScopedKinds_def)
  have n1: "\<not> fileBlockOpen []" by (simp add: fileBlockOpen_def)
  have n2: "\<not> sourceFileBlockOpen [''TN:x'']"
    by (simp add: sourceFileBlockOpen_def isEndOfRecord_def isSourceFile_def recordAt_def
          trimEval valueEval)
  have p1: "run initState [] = Inr initState" by simp
  have p2: "runCounters initCounters [''TN:x''] = Inr initCounters"
    by (simp add: trimEval valueEval countersEval)
  note c = C5_record_outside_block
  from c [THEN conjunct1, rule_format, of "[]" initState "''DA:1,5''" _ "''line data''" "[''end_of_record'']" None]
    p1 n1 r1 k1
  have w1: "Parse \<lparr>scanner = \<lparr>tokens = [''DA:1,5'', ''end_of_record''], scanErr = None\<rparr>\<rparr>
     = (None, Some ''line data without source file'')"
    by (simp add: sequencingError_def)
  from c [THEN conjunct2, rule_format, of "[''TN:x'']" initCounters "''BRH:1''" _ "''branch hit''" "[''end_of_record'']" None]
    p2 n2 r2 k2
  have w2: "ParseCounters \<lparr>scanner = \<lparr>tokens = [''TN:x'', ''BRH:1'', ''end_of_record''], scanErr = None\<rparr>\<rparr>
     = (None, Some ''branch hit without source file'')"
    by (simp add: sequencingError_def)
  show ?thesis by (intro conjI w1 w2)
qed

section \<open>The two parsers compared\<close>

lemma isValidLineData_iff: "isValidLineData v \<longleftrightarrow> (\<exists>d. parseLineData v = Inr d)"
  by (auto simp: isValidLineData_def parseLineData_def Let_def split: option.splits)

lemma isValidFunctionName_iff: "isValidFunctionName v \<longleftrightarrow> (\<exists>d. parseFunctionName v = Inr d)"
  by (auto simp: isValidFunctionName_def parseFunctionName_def Let_def split: option.splits)

lemma shared_closeFile:
  assumes "shared s = csummary ct" and "sameCounters f ct"
  shows "shared (closeFile s f) = addCounters ct"
proof -
  from assms(1) have "csummary ct = shared s" by simp
  with assms(2) show ?thesis
    by (simp add: shared_def closeFile_def addCounters_def sameCounters_def)
qed

lemma shared_calcRates: "shared (calcRates s) = calcRates (shared s)"
  by (simp add: shared_def calcRates_def Let_def)


lemma related_step_record:
  assumes "related ph st ct" and "phaseStep ph r = Some ph'"
  shows "(\<exists>e e'. handleRecord st r = Inl e \<and> handleRecordCounters ct r = Inl e')
       \<or> (\<exists>st' ct'. handleRecord st r = Inr st' \<and> handleRecordCounters ct r = Inr ct'
              \<and> related ph' st' ct')"
  using assms
  apply (cases ph)
    apply (auto simp: related_def phaseStep_def handleRecord_def handleRecordCounters_def
      fileScopedKinds_def recordTypes noCounts_def sameCounters_def shared_closeFile newFileRecord_def
      isValidLineData_iff isValidFunctionName_iff isValidBranchData_iff
      split: if_splits option.splits sum.splits)
  done

lemma related_step:
  assumes "related ph st ct" and "canonical ph (t # ts)"
  shows "(\<exists>e e'. step st t = Inl e \<and> stepCounters ct t = Inl e')
       \<or> (\<exists>st' ct' ph'. step st t = Inr st' \<and> stepCounters ct t = Inr ct'
              \<and> related ph' st' ct' \<and> canonical ph' ts)"
proof (cases "recordAt t")
  case None
  with stepCounters_no_record [OF None, of st ct] assms show ?thesis by auto
next
  case (Some r)
  with assms(2) obtain ph' where p: "phaseStep ph r = Some ph'" and c: "canonical ph' ts"
    by (auto split: option.splits)
  from related_step_record [OF assms(1) p] c show ?thesis
    by (auto simp: step_recordAt [OF Some] stepCounters_recordAt [OF Some])
qed

lemma related_run:
  "related ph st ct \<Longrightarrow> canonical ph ts \<Longrightarrow>
   (\<exists>e e'. run st ts = Inl e \<and> runCounters ct ts = Inl e')
   \<or> (\<exists>st' ct'. run st ts = Inr st' \<and> runCounters ct ts = Inr ct'
          \<and> shared (summary st') = csummary ct')"
proof (induction ts arbitrary: ph st ct)
  case Nil
  then show ?case by (simp add: related_def)
next
  case (Cons t ts)
  from related_step [OF Cons.prems]
  show ?case
  proof
    assume "\<exists>e e'. step st t = Inl e \<and> stepCounters ct t = Inl e'"
    then show ?thesis by auto
  next
    assume "\<exists>st' ct' ph'. step st t = Inr st' \<and> stepCounters ct t = Inr ct'
              \<and> related ph' st' ct' \<and> canonical ph' ts"
    then obtain st' ct' ph' where s: "step st t = Inr st'" "stepCounters ct t = Inr ct'"
      and r: "related ph' st' ct'" and c: "canonical ph' ts"
      by blast
    from Cons.IH [OF r c] s show ?thesis by simp
  qed
qed

lemma related_init: "related Idle initState initCounters"
  by (simp add: related_def initState_def initCounters_def shared_def emptySummary_def
        emptyCounters_def)

text \<open>
  Claim C10, as stated: the two parsers agree on every input. They do not. On
  \<open>TN:x\<close>, \<open>DA:1,1\<close> the extended parser returns a summary and the counters-only
  parser the error "line data without source file"; on \<open>SF:a\<close>, \<open>LF:3\<close>,
  \<open>SF:b\<close>, \<open>end_of_record\<close> both return a summary, with 3 total lines in the one
  and 0 in the other.
\<close>

theorem C10_counterexample:
  "Summarize (NewReader ''TN:x\<newline>DA:1,1'') = (Some emptySummary, None)
   \<and> SummarizeCounters (NewReader ''TN:x\<newline>DA:1,1'')
       = (None, Some ''line data without source file'')
   \<and> Summarize (NewReader ''SF:a\<newline>LF:3\<newline>SF:b\<newline>end_of_record'')
       = (Some (emptySummary\<lparr>TotalFiles := 1, TotalLines := 3,
                 Files := [(newFileRecord [])\<lparr>SourceFile := ''b'', LinesFound := 3\<rparr>]\<rparr>), None)
   \<and> SummarizeCounters (NewReader ''SF:a\<newline>LF:3\<newline>SF:b\<newline>end_of_record'')
       = (Some (emptyCounters\<lparr>TotalFiles := 1\<rparr>), None)"
  by (simp add: inputEval parseEval countersEval floatEval)

text \<open>
  Claim C10, amended: on every canonical input (every test-name record met outside a file
  block is followed by a source-file record before any file-scoped record or
  end-of-record marker, and no source-file record comes while a block is open), whatever
  the scanner's error, the two parsers return a summary or none together, with equal
  values in every shared field, the three rates included, and return an error or none
  together.
\<close>

theorem C10_parsers_agree:
  assumes "canonical Idle (tokens (scanner p))"
  shows "fst (ParseCounters p) = map_option shared (fst (Parse p))
       \<and> (snd (ParseCounters p) = None \<longleftrightarrow> snd (Parse p) = None)"
proof -
  from related_run [OF related_init assms]
  show ?thesis
    by (auto simp: Parse_def ParseCounters_def shared_calcRates)
qed

theorem C10_parsers_agree_witness:
  "canonical Idle [''TN:t'', ''SF:a'', ''FN:1,f'', ''FNDA:2,f'', ''BRDA:1,0,0,-'', ''LF:2'', ''LH:1'', ''end_of_record'']
   \<and> ParseCounters \<lparr>scanner = \<lparr>tokens = [''TN:t'', ''SF:a'', ''FN:1,f'', ''FNDA:2,f'', ''BRDA:1,0,0,-'', ''LF:2'', ''LH:1'', ''end_of_record''], scanErr = None\<rparr>\<rparr>
       = (Some \<lparr>TotalFiles = 1, TotalLines = 2, CoveredLines = 1, LineCoverageRate = Finite 50,
               TotalFunctions = 1, CoveredFunctions = 1, FunctionCoverageRate = Finite 100,
               TotalBranches = 0, CoveredBranches = 0, BranchCoverageRate = Finite 0\<rparr>, None)
   \<and> map_option shared (fst (Parse \<lparr>scanner = \<lparr>tokens = [''TN:t'', ''SF:a'', ''FN:1,f'', ''FNDA:2,f'', ''BRDA:1,0,0,-'', ''LF:2'', ''LH:1'', ''end_of_record''], scanErr = None\<rparr>\<rparr>))
       = Some \<lparr>TotalFiles = 1, TotalLines = 2, CoveredLines = 1, LineCoverageRate = Finite 50,
               TotalFunctions = 1, CoveredFunctions = 1, FunctionCoverageRate = Finite 100,
               TotalBranches = 0, CoveredBranches = 0, BranchCoverageRate = Finite 0\<rparr>
   \<and> snd (Parse \<lparr>scanner = \<lparr>tokens = [''TN:t'', ''SF:a'', ''FN:1,f'', ''FNDA:2,f'', ''BRDA:1,0,0,-'', ''LF:2'', ''LH:1'', ''end_of_record''], scanErr = None\<rparr>\<rparr>) = None"
proof -
  let ?ts = "[''TN:t'', ''SF:a'', ''FN:1,f'', ''FNDA:2,f'', ''BRDA:1,0,0,-'', ''LF:2'', ''LH:1'', ''end_of_record'']"
  let ?p = "\<lparr>scanner = \<lparr>tokens = ?ts, scanErr = None\<rparr>\<rparr>"
  have c: "canonical Idle ?ts"
    by (simp add: recordAt_def phaseStep_def fileScopedKinds_def trimEval valueEval)
  then have c': "canonical Idle (tokens (scanner ?p))" by simp
  have pc: "ParseCounters ?p
       = (Some \<lparr>TotalFiles = 1, TotalLines = 2, CoveredLines = 1, LineCoverageRate = Finite 50,
               TotalFunctions = 1, CoveredFunctions = 1, FunctionCoverageRate = Finite 100,
               TotalBranches = 0, CoveredBranches = 0, BranchCoverageRate = Finite 0\<rparr>, None)"
    by (simp add: trimEval valueEval countersEval floatEval)
  from C10_parsers_agree [OF c'] pc
  have "map_option shared (fst (Parse ?p))
       = Some \<lparr>TotalFiles = 1, TotalLines = 2, CoveredLines = 1, LineCoverageRate = Finite 50,
               TotalFunctions = 1, CoveredFunctions = 1, FunctionCoverageRate = Finite 100,
               TotalBranches = 0, CoveredBranches = 0, BranchCoverageRate = Finite 0\<rparr>"
    and "snd (Parse ?p) = None"
    by simp_all
  with c pc show ?thesis by simp
qed

section \<open>The totals are sums over the closed file blocks\<close>

lemma lastValue_Nil: "lastValue tag [] = 0"
  by (simp add: lastValue_def)

lemma lastValue_snoc:
  "lastValue tag (cur @ [r]) =
     (if Type r = tag then (case Atoi (Value r) of None \<Rightarrow> 0 | Some n \<Rightarrow> n)
      else lastValue tag cur)"
  by (cases "filter (\<lambda>r. Type r = tag) cur") (simp_all add: lastValue_def)

lemma countFunctions_Nil: "countFunctions [] = 0"
  by (simp add: countFunctions_def)

lemma countFunctions_snoc:
  "countFunctions (cur @ [r]) = countFunctions cur + (if Type r = RecordFunctionName then 1 else 0)"
  by (simp add: countFunctions_def)

lemma countFunctionHits_Nil: "countFunctionHits [] = 0"
  by (simp add: countFunctionHits_def)

lemma countFunctionHits_snoc:
  "countFunctionHits (cur @ [r]) =
     countFunctionHits cur
       + (if Type r = RecordFunctionData \<and> functionDataHit (Value r) then 1 else 0)"
  by (simp add: countFunctionHits_def)

lemmas blockSpec =
  lastValue_Nil lastValue_snoc countFunctions_Nil countFunctions_snoc countFunctionHits_Nil
  countFunctionHits_snoc

lemma handleRecord_end_totals:
  assumes "handleRecord st r = Inr st'" and "blockInv st cur" and "Type r = RecordEndOfRecord"
  shows "blockInv st' []
       \<and> TotalLines (summary st') = TotalLines (summary st) + lastValue RecordLinesFound cur
       \<and> CoveredLines (summary st') = CoveredLines (summary st) + lastValue RecordLinesHit cur
       \<and> TotalFunctions (summary st') = TotalFunctions (summary st) + countFunctions cur
       \<and> CoveredFunctions (summary st') = CoveredFunctions (summary st) + countFunctionHits cur
       \<and> TotalBranches (summary st') = TotalBranches (summary st) + lastValue RecordBranchFound cur
       \<and> CoveredBranches (summary st') = CoveredBranches (summary st) + lastValue RecordBranchHit cur"
  using assms
  by (auto simp: handleRecord_def recordTypes blockInv_def blockSpec closeFile_def
           split: option.splits)

lemma handleRecord_other_inv:
  assumes "handleRecord st r = Inr st'" and "blockInv st cur" and "Type r \<noteq> RecordEndOfRecord"
  shows "summary st' = summary st
       \<and> blockInv st' (if Type r \<noteq> RecordLineData \<and> Type r \<noteq> RecordBranchData then cur @ [r] else cur)"
  using assms
  by (auto simp: handleRecord_def recordTypes blockInv_def blockSpec newFileRecord_def
           split: if_splits option.splits sum.splits)

lemma countedRecords_Nil: "countedRecords [] = []"
  by (simp add: countedRecords_def handled_def)

lemma countedRecords_Cons:
  "countedRecords (t # ts) =
     (case recordAt t of
        None \<Rightarrow> countedRecords ts
      | Some r \<Rightarrow> (if Type r \<noteq> RecordLineData \<and> Type r \<noteq> RecordBranchData
                  then r # countedRecords ts else countedRecords ts))"
  by (simp add: countedRecords_def handled_def split: option.splits)

lemma step_no_record_state: "recordAt t = None \<Longrightarrow> step st t = Inr st' \<Longrightarrow> st' = st"
  using step_no_record [of t st] by auto

lemma run_totals:
  "run st ts = Inr st' \<Longrightarrow> blockInv st cur \<Longrightarrow>
   TotalLines (summary st') = TotalLines (summary st)
       + sum_list (map (lastValue RecordLinesFound) (closedBlocks cur (countedRecords ts)))
   \<and> CoveredLines (summary st') = CoveredLines (summary st)
       + sum_list (map (lastValue RecordLinesHit) (closedBlocks cur (countedRecords ts)))
   \<and> TotalFunctions (summary st') = TotalFunctions (summary st)
       + sum_list (map countFunctions (closedBlocks cur (countedRecords ts)))
   \<and> CoveredFunctions (summary st') = CoveredFunctions (summary st)
       + sum_list (map countFunctionHits (closedBlocks cur (countedRecords ts)))
   \<and> TotalBranches (summary st') = TotalBranches (summary st)
       + sum_list (map (lastValue RecordBranchFound) (closedBlocks cur (countedRecords ts)))
   \<and> CoveredBranches (summary st') = CoveredBranches (summary st)
       + sum_list (map (lastValue RecordBranchHit) (closedBlocks cur (countedRecords ts)))"
proof (induction ts arbitrary: st cur)
  case Nil
  then show ?case by (simp add: countedRecords_Nil)
next
  case (Cons t ts)
  from Cons.prems(1) obtain st1 where s: "step st t = Inr st1" and r: "run st1 ts = Inr st'"
    by (auto split: sum.splits)
  show ?case
  proof (cases "recordAt t")
    case None
    from step_no_record_state [OF None s] have "st1 = st" .
    with Cons.IH [OF r, of cur] Cons.prems(2) None show ?thesis
      by (simp add: countedRecords_Cons)
  next
    case (Some rec)
    with s have h: "handleRecord st rec = Inr st1" by (simp add: step_recordAt)
    show ?thesis
    proof (cases "Type rec = RecordEndOfRecord")
      case True
      from handleRecord_end_totals [OF h Cons.prems(2) True] Cons.IH [OF r, of "[]"]
      show ?thesis
        using True Some by (simp add: countedRecords_Cons recordTypes add.assoc)
    next
      case False
      note notEnd = False
      note other = handleRecord_other_inv [OF h Cons.prems(2) False]
      show ?thesis
      proof (cases "Type rec \<noteq> RecordLineData \<and> Type rec \<noteq> RecordBranchData")
        case True
        with Some have c: "countedRecords (t # ts) = rec # countedRecords ts"
          by (simp add: countedRecords_Cons)
        from True other have "summary st1 = summary st" and "blockInv st1 (cur @ [rec])"
          by simp_all
        with Cons.IH [OF r, of "cur @ [rec]"] show ?thesis
          using notEnd by (simp add: c)
      next
        case False
        with Some have c: "countedRecords (t # ts) = countedRecords ts"
          by (auto simp: countedRecords_Cons)
        from False other have "summary st1 = summary st" and "blockInv st1 cur" by auto
        with Cons.IH [OF r, of cur] show ?thesis
          by (simp add: c)
      qed
    qed
  qed
qed

lemma blockInv_init: "blockInv initState []"
  by (simp add: blockInv_def initState_def blockSpec)

text \<open>
  Claim C2. Whenever \<open>Parse\<close> returns a summary, its totals are sums over the closed
  file blocks of the input, taken from the records other than line data and branch data:
  \<open>TotalLines\<close> is the sum of the blocks' last \<open>LF\<close> values, \<open>CoveredLines\<close> of
  their last \<open>LH\<close> values, \<open>TotalBranches\<close> and \<open>CoveredBranches\<close> of their last
  \<open>BRF\<close> and \<open>BRH\<close> values, \<open>TotalFunctions\<close> the number of their \<open>FN\<close>
  records and \<open>CoveredFunctions\<close> the number of their \<open>FNDA\<close> records whose count
  parsed and was above 0. Sums are sums of Go's \<open>int\<close>.
\<close>

theorem C2_totals_from_closed_blocks:
  assumes "Parse p = (Some s, e)"
  shows "TotalLines s
           = sum_list (map (lastValue RecordLinesFound)
               (closedBlocks [] (countedRecords (tokens (scanner p)))))
       \<and> CoveredLines s
           = sum_list (map (lastValue RecordLinesHit)
               (closedBlocks [] (countedRecords (tokens (scanner p)))))
       \<and> TotalBranches s
           = sum_list (map (lastValue RecordBranchFound)
               (closedBlocks [] (countedRecords (tokens (scanner p)))))
       \<and> CoveredBranches s
           = sum_list (map (lastValue RecordBranchHit)
               (closedBlocks [] (countedRecords (tokens (scanner p)))))
       \<and> TotalFunctions s
           = sum_list (map countFunctions
               (closedBlocks [] (countedRecords (tokens (scanner p)))))
       \<and> CoveredFunctions s
           = sum_list (map countFunctionHits
               (closedBlocks [] (countedRecords (tokens (scanner p)))))"
proof -
  from Parse_Some [OF assms] obtain st where
    r: "run initState (tokens (scanner p)) = Inr st" and s: "s = calcRates (summary st)"
    by blast
  from run_totals [OF r blockInv_init] show ?thesis
    by (simp add: s calcRates_totals initState_def emptySummary_def)
qed

lemma threeBlocks_spec:
  "map (\<lambda>b. (lastValue RecordLinesFound b, lastValue RecordLinesHit b, countFunctions b,
           countFunctionHits b, lastValue RecordBranchFound b, lastValue RecordBranchHit b))
     (closedBlocks [] (countedRecords threeBlocks))
   = [(2, 1, 2, 1, 4, 2), (1, 1, 0, 0, 0, 0)]"
  by (simp add: threeBlocks_def countedRecords_def handled_def recordAt_def lastValue_def
        countFunctions_def countFunctionHits_def trimEval valueEval)

lemma threeBlocks_totals:
  "map_option (\<lambda>s. (TotalFiles s, TotalLines s, CoveredLines s, TotalFunctions s,
                   CoveredFunctions s, TotalBranches s, CoveredBranches s))
     (fst (Parse \<lparr>scanner = \<lparr>tokens = threeBlocks, scanErr = None\<rparr>\<rparr>))
   = Some (2, 3, 2, 2, 1, 4, 2)"
  by (simp add: threeBlocks_def trimEval valueEval parseEval)

theorem C2_totals_from_closed_blocks_witness:
  "map_option (\<lambda>s. (TotalLines s, CoveredLines s, TotalFunctions s,
                   CoveredFunctions s, TotalBranches s, CoveredBranches s))
     (fst (Parse \<lparr>scanner = \<lparr>tokens = threeBlocks, scanErr = None\<rparr>\<rparr>))
   = Some (3, 2, 2, 1, 4, 2)
   \<and> sum_list (map (lastValue RecordLinesFound) (closedBlocks [] (countedRecords threeBlocks))) = 3
   \<and> sum_list (map (lastValue RecordLinesHit) (closedBlocks [] (countedRecords threeBlocks))) = 2
   \<and> sum_list (map countFunctions (closedBlocks [] (countedRecords threeBlocks))) = 2
   \<and> sum_list (map countFunctionHits (closedBlocks [] (countedRecords threeBlocks))) = 1
   \<and> sum_list (map (lastValue RecordBranchFound) (closedBlocks [] (countedRecords threeBlocks))) = 4
   \<and> sum_list (map (lastValue RecordBranchHit) (closedBlocks [] (countedRecords threeBlocks))) = 2"
proof -
  let ?p = "\<lparr>scanner = \<lparr>tokens = threeBlocks, scanErr = None\<rparr>\<rparr>"
  from threeBlocks_totals obtain s where f: "fst (Parse ?p) = Some s"
    and t: "TotalLines s = 3" "CoveredLines s = 2" "TotalFunctions s = 2"
      "CoveredFunctions s = 1" "TotalBranches s = 4" "CoveredBranches s = 2"
    by auto
  then have "Parse ?p = (Some s, snd (Parse ?p))" by (metis prod.collapse)
  from C2_totals_from_closed_blocks [OF this] f t show ?thesis by simp
qed

end
